theory Spec2Isabelle
  imports Complex_Main "HOL-Library.AList"
begin

section \<open>Landmark normalisation (core/gesture\_database.py)\<close>

text \<open>
  Numpy arrays of shape \<open>(n, 3)\<close> are lists of triples and flat arrays are lists. Every
  exception the numpy calls can raise on these shapes is a value of \<open>error\<close>.

  The numeric core is embedded twice. In this first embedding a Python float is a real
  number and the arithmetic is exact; it carries the properties of the search loop, which
  depend on the order of the scores and on which entries are skipped. The second
  embedding, further down, takes the range of a double into account (overflow to an
  infinity, underflow to zero, NaN) and carries the properties of the computed values.
\<close>

datatype error = ValueError | IndexError

type_synonym point = "real \<times> real \<times> real"

text \<open>\<^verbatim>\<open>np.array(landmarks).reshape(-1, 3)\<close>: fails unless the length is a multiple of 3.\<close>

fun reshape3 :: "'a list \<Rightarrow> error + ('a \<times> 'a \<times> 'a) list" where
  "reshape3 [] = Inr []"
| "reshape3 (x # y # z # rest) =
     (case reshape3 rest of Inl e \<Rightarrow> Inl e | Inr rows \<Rightarrow> Inr ((x, y, z) # rows))"
| "reshape3 _ = Inl ValueError"

text \<open>\<^verbatim>\<open>.flatten()\<close> of an \<open>(n, 3)\<close> array.\<close>

fun flatten :: "('a \<times> 'a \<times> 'a) list \<Rightarrow> 'a list" where
  "flatten [] = []"
| "flatten ((x, y, z) # rows) = x # y # z # flatten rows"

definition sub3 :: "point \<Rightarrow> point \<Rightarrow> point" where
  "sub3 p w = (case p of (x, y, z) \<Rightarrow> (case w of (a, b, c) \<Rightarrow> (x - a, y - b, z - c)))"

definition div3 :: "point \<Rightarrow> real \<Rightarrow> point" where
  "div3 p s = (case p of (x, y, z) \<Rightarrow> (x / s, y / s, z / s))"

text \<open>\<^verbatim>\<open>np.linalg.norm\<close> of one row.\<close>

definition norm3 :: "point \<Rightarrow> real" where
  "norm3 p = (case p of (x, y, z) \<Rightarrow> sqrt (x\<^sup>2 + y\<^sup>2 + z\<^sup>2))"

text \<open>
  \<^verbatim>\<open>_normalize_landmarks\<close>: reshape, subtract row 0, read row 9 (IndexError when there
  are fewer than ten rows), divide by its norm when that is positive, flatten.
\<close>

definition normalize_landmarks :: "real list \<Rightarrow> error + real list" where
  "normalize_landmarks landmarks =
     (case reshape3 landmarks of
        Inl e \<Rightarrow> Inl e
      | Inr rows \<Rightarrow>
          (case rows of
             [] \<Rightarrow> Inl IndexError
           | wrist # _ \<Rightarrow>
               (let centered = map (\<lambda>p. sub3 p wrist) rows in
                if length centered \<le> 9 then Inl IndexError
                else
                  (let scale = norm3 (centered ! 9);
                       centered' = (if scale > 0 then map (\<lambda>p. div3 p scale) centered
                                    else centered)
                   in Inr (flatten centered')))))"

section \<open>Pose matching (core/gesture\_database.py)\<close>

text \<open>
  A stored gesture is a dictionary; \<open>landmarks\<close> is \<open>None\<close> when the key is missing.
  The gesture dictionary \<^verbatim>\<open>self.gestures\<close> iterates in insertion order, so it is an
  association list.
\<close>

record gesture =
  name :: string
  landmarks :: "real list option"
  message :: string
  created_at :: int

type_synonym gestures = "(string \<times> gesture) list"

text \<open>
  \<^verbatim>\<open>diff = norm_landmarks - stored_norm\<close> on one-dimensional arrays: equal lengths
  subtract elementwise, a one-element array is broadcast, any other pair of shapes raises.
\<close>

definition array_sub :: "real list \<Rightarrow> real list \<Rightarrow> error + real list" where
  "array_sub a b =
     (if length a = length b then Inr (map2 (-) a b)
      else if length b = 1 then Inr (map (\<lambda>x. x - hd b) a)
      else if length a = 1 then Inr (map (\<lambda>y. hd a - y) b)
      else Inl ValueError)"

text \<open>\<^verbatim>\<open>np.linalg.norm(diff.reshape(-1, 3), axis=1)\<close>\<close>

definition row_distances :: "real list \<Rightarrow> error + real list" where
  "row_distances diff =
     (case reshape3 diff of Inl e \<Rightarrow> Inl e | Inr rows \<Rightarrow> Inr (map norm3 rows))"

text \<open>
  \<^verbatim>\<open>k = max(1, int(len(distances) * 0.8))\<close>, then the mean of
  \<^verbatim>\<open>np.partition(distances, k-1)[:k]\<close>, the \<open>k\<close> smallest distances
  (\<^verbatim>\<open>np.partition\<close> raises on an empty array), then \<^verbatim>\<open>1.0 / (1.0 + avg_distance)\<close>.
\<close>

definition topk :: "'a list \<Rightarrow> nat" where
  "topk distances = max 1 (nat \<lfloor>real (length distances) * (8 / 10)\<rfloor>)"

definition avg_distance :: "real list \<Rightarrow> real" where
  "avg_distance distances =
     (let topk_distances = take (topk distances) (sort distances)
      in sum_list topk_distances / real (length topk_distances))"

definition similarity_of :: "real list \<Rightarrow> error + real" where
  "similarity_of distances =
     (if distances = [] then Inl ValueError
      else Inr (1 / (1 + avg_distance distances)))"

text \<open>The body of the \<^verbatim>\<open>try\<close> block of the loop, up to the similarity.\<close>

definition entry_similarity :: "real list \<Rightarrow> real list \<Rightarrow> error + real" where
  "entry_similarity norm_landmarks stored =
     (case normalize_landmarks stored of
        Inl e \<Rightarrow> Inl e
      | Inr stored_norm \<Rightarrow>
          (case array_sub norm_landmarks stored_norm of
             Inl e \<Rightarrow> Inl e
           | Inr diff \<Rightarrow>
               (case row_distances diff of
                  Inl e \<Rightarrow> Inl e
                | Inr distances \<Rightarrow> similarity_of distances)))"

text \<open>
  The three loop variables. \<open>best_match\<close> is the copy of the gesture with its
  identifier added under \<^verbatim>\<open>'id'\<close>.
\<close>

record match_state =
  best_match :: "(string \<times> gesture) option"
  best_score :: real
  best_gesture_id :: "string option"

definition match_init :: match_state where
  "match_init = \<lparr>best_match = None, best_score = - 1, best_gesture_id = None\<rparr>"

fun match_loop :: "real list \<Rightarrow> gestures \<Rightarrow> match_state \<Rightarrow> match_state" where
  "match_loop norm_landmarks [] st = st"
| "match_loop norm_landmarks ((gesture_id, g) # rest) st =
     (case landmarks g of
        None \<Rightarrow> match_loop norm_landmarks rest st
      | Some stored \<Rightarrow>
          if stored = [] then match_loop norm_landmarks rest st
          else
            (case entry_similarity norm_landmarks stored of
               Inl e \<Rightarrow> match_loop norm_landmarks rest st
             | Inr similarity \<Rightarrow>
                 if similarity > best_score st
                 then match_loop norm_landmarks rest
                        \<lparr>best_match = Some (gesture_id, g), best_score = similarity,
                         best_gesture_id = Some gesture_id\<rparr>
                 else match_loop norm_landmarks rest st))"

text \<open>
  \<^verbatim>\<open>find_similar_gesture\<close>. \<open>search\<close> is the loop state the function prints before it
  returns (\<open>None\<close> on the two early returns); \<open>find_similar_gesture\<close> is the value
  returned.
\<close>

definition search :: "gestures \<Rightarrow> real list \<Rightarrow> match_state option" where
  "search gs query =
     (if query = [] \<or> gs = [] then None
      else
        (case normalize_landmarks query of
           Inl e \<Rightarrow> None
         | Inr norm_landmarks \<Rightarrow> Some (match_loop norm_landmarks gs match_init)))"

definition find_similar_gesture ::
  "gestures \<Rightarrow> real list \<Rightarrow> real \<Rightarrow> (string \<times> gesture) option" where
  "find_similar_gesture gs query threshold =
     (case search gs query of
        None \<Rightarrow> None
      | Some st \<Rightarrow> if best_score st \<ge> threshold then best_match st else None)"

text \<open>
  The effective \<^verbatim>\<open>_save_gestures\<close> (the second definition in the class): write a
  temporary file, remove the target, rename. The step at which the file system fails is
  a parameter; the persisted document is \<open>None\<close> when the target file does not exist.
\<close>

datatype io = IoOk | TempWriteFails | RemoveFails | RenameFails

record database =
  db_gestures :: gestures
  db_file :: "gestures option"
  db_saves :: nat

definition save_gestures :: "io \<Rightarrow> gestures \<Rightarrow> database \<Rightarrow> bool \<times> database" where
  "save_gestures fs data db =
     (let db1 = db\<lparr>db_saves := db_saves db + 1\<rparr> in
      case fs of
        IoOk \<Rightarrow> (True, db1\<lparr>db_file := Some data\<rparr>)
      | TempWriteFails \<Rightarrow> (False, db1)
      | RemoveFails \<Rightarrow> (False, db1)
      | RenameFails \<Rightarrow> (False, db1\<lparr>db_file := None\<rparr>))"

text \<open>
  The effective \<^verbatim>\<open>add_gesture\<close> (the second definition): \<open>now\<close> is
  \<^verbatim>\<open>int(time.time())\<close>. Assigning to a dictionary key keeps the position of an
  existing key and appends a new one, as \<open>AList.update\<close> does.
\<close>

definition add_gesture ::
  "io \<Rightarrow> int \<Rightarrow> string \<Rightarrow> string \<Rightarrow> real list \<Rightarrow> string \<Rightarrow> database \<Rightarrow> bool \<times> database" where
  "add_gesture fs now gesture_id nm lms msg db =
     (if lms = [] then (False, db)
      else
        (let g = \<lparr>name = nm, landmarks = Some lms, message = msg, created_at = now\<rparr>;
             db1 = db\<lparr>db_gestures := AList.update gesture_id g (db_gestures db)\<rparr>
         in save_gestures fs (db_gestures db1) db1))"

section \<open>Frame channel (core/camera\_operator.py)\<close>

text \<open>
  \<^verbatim>\<open>Queue(maxsize=1)\<close>: the contents oldest first. \<open>put\<close> and \<open>get\<close> block on a full
  and an empty queue; a call that would block returns \<open>None\<close>. \<open>get_nowait\<close> raises
  \<^verbatim>\<open>queue.Empty\<close> instead.
\<close>

type_synonym 'f frame_queue = "'f list"

definition maxsize :: nat where
  "maxsize = 1"

definition put :: "'f \<Rightarrow> 'f frame_queue \<Rightarrow> 'f frame_queue option" where
  "put frame q = (if length q \<ge> maxsize then None else Some (q @ [frame]))"

definition get :: "'f frame_queue \<Rightarrow> ('f \<times> 'f frame_queue) option" where
  "get q = (case q of [] \<Rightarrow> None | frame # rest \<Rightarrow> Some (frame, rest))"

definition get_nowait :: "'f frame_queue \<Rightarrow> unit + ('f \<times> 'f frame_queue)" where
  "get_nowait q = (case q of [] \<Rightarrow> Inl () | frame # rest \<Rightarrow> Inr (frame, rest))"

text \<open>
  The replacement step of \<^verbatim>\<open>_update_frame\<close>:
  \<^verbatim>\<open>while not q.empty(): try: q.get_nowait() except: break\<close>, then \<^verbatim>\<open>q.put(frame)\<close>.
\<close>

function discard_old :: "'f frame_queue \<Rightarrow> 'f frame_queue" where
  "discard_old q =
     (if q \<noteq> [] then
        (case get_nowait q of Inl _ \<Rightarrow> q | Inr (_, rest) \<Rightarrow> discard_old rest)
      else q)"
  by pat_completeness auto
termination
  by (relation "measure length") (auto simp: get_nowait_def split: list.splits)

definition publish :: "'f \<Rightarrow> 'f frame_queue \<Rightarrow> 'f frame_queue option" where
  "publish frame q = put frame (discard_old q)"

text \<open>
  \<^verbatim>\<open>get_frame\<close>: the frame (or Python's \<^verbatim>\<open>None\<close>) and the queue left behind; the
  outer \<open>None\<close> is a call that blocks.
\<close>

definition get_frame :: "'f frame_queue \<Rightarrow> ('f option \<times> 'f frame_queue) option" where
  "get_frame q =
     (if q \<noteq> [] then
        (case get q of None \<Rightarrow> None | Some (frame, rest) \<Rightarrow> Some (Some frame, rest))
      else Some (None, q))"

text \<open>Publishing a sequence of frames with nothing in between.\<close>

fun publish_all :: "'f list \<Rightarrow> 'f frame_queue \<Rightarrow> 'f frame_queue option" where
  "publish_all [] q = Some q"
| "publish_all (frame # frames) q =
     (case publish frame q of None \<Rightarrow> None | Some q' \<Rightarrow> publish_all frames q')"

section \<open>Cooldown gate (main.py)\<close>

text \<open>
  The fields of \<^verbatim>\<open>SignToSpeechApp\<close> that \<^verbatim>\<open>_handle_gesture_recognition\<close> reads and
  writes, with the calls made on the user interface and the speech engine recorded in
  order. \<open>current_time\<close> is \<^verbatim>\<open>time.time()\<close>.
\<close>

record app =
  current_gesture :: "string option"
  last_gesture_time :: real
  recognized_text :: "string list"
  spoken :: "string list"

definition app_init :: app where
  "app_init = \<lparr>current_gesture = None, last_gesture_time = 0,
               recognized_text = [], spoken = []\<rparr>"

definition handle_gesture_recognition :: "real \<Rightarrow> string \<times> gesture \<Rightarrow> app \<Rightarrow> app" where
  "handle_gesture_recognition current_time g a =
     (if current_gesture a \<noteq> Some (fst g) \<or> current_time - last_gesture_time a > 5
      then a\<lparr>current_gesture := Some (fst g), last_gesture_time := current_time,
              recognized_text := recognized_text a @ [message (snd g)],
              spoken := spoken a @ [message (snd g)]\<rparr>
      else a)"

text \<open>A sequence of confirmed matches, each with the time at which it is handled.\<close>

fun handle_all :: "(real \<times> string \<times> gesture) list \<Rightarrow> app \<Rightarrow> app" where
  "handle_all [] a = a"
| "handle_all ((t, g) # rest) a = handle_all rest (handle_gesture_recognition t g a)"

section \<open>Auxiliary definitions\<close>

text \<open>
  The rows \<open>normalize_landmarks\<close> flattens once the reshape and the reads of rows 0
  and 9 have succeeded.
\<close>

definition normalized_rows :: "point list \<Rightarrow> point list" where
  "normalized_rows rows =
     (let centered = map (\<lambda>p. sub3 p (rows ! 0)) rows; scale = norm3 (centered ! 9)
      in if scale > 0 then map (\<lambda>p. div3 p scale) centered else centered)"

text \<open>
  What one iteration of the loop does with an entry before the comparison with
  \<open>best_score\<close>: \<open>None\<close> when the entry is skipped (missing or empty landmarks, or an
  exception inside the \<^verbatim>\<open>try\<close> block), the similarity otherwise.
\<close>

definition entry_score :: "real list \<Rightarrow> gesture \<Rightarrow> real option" where
  "entry_score norm_landmarks g =
     (case landmarks g of
        None \<Rightarrow> None
      | Some stored \<Rightarrow>
          if stored = [] then None
          else (case entry_similarity norm_landmarks stored of
                  Inl e \<Rightarrow> None | Inr similarity \<Rightarrow> Some similarity))"

text \<open>Two of the landmark arrays of \<^verbatim>\<open>_get_default_gestures\<close>.\<close>

definition palm_landmarks :: "real list" where
  "palm_landmarks =
     [0.5, 0.5, 0.0,  0.6, 0.4, 0.0,  0.7, 0.3, 0.0,  0.8, 0.3, 0.0,  0.9, 0.3, 0.0,
      0.5, 0.4, 0.0,  0.5, 0.3, 0.0,  0.5, 0.2, 0.0,  0.5, 0.1, 0.0,
      0.4, 0.4, 0.0,  0.4, 0.3, 0.0,  0.4, 0.2, 0.0,  0.4, 0.1, 0.0,
      0.3, 0.4, 0.0,  0.3, 0.3, 0.0,  0.3, 0.2, 0.0,  0.3, 0.1, 0.0,
      0.2, 0.5, 0.0,  0.2, 0.4, 0.0,  0.2, 0.3, 0.0,  0.2, 0.2, 0.0]"

definition fist_landmarks :: "real list" where
  "fist_landmarks =
     [0.5, 0.5, 0.0,  0.6, 0.4, 0.0,  0.7, 0.3, 0.0,  0.8, 0.3, 0.0,  0.9, 0.3, 0.0,
      0.5, 0.4, 0.0,  0.5, 0.5, 0.0,  0.5, 0.6, 0.0,  0.5, 0.7, 0.0,
      0.4, 0.4, 0.0,  0.4, 0.5, 0.0,  0.4, 0.6, 0.0,  0.4, 0.7, 0.0,
      0.3, 0.4, 0.0,  0.3, 0.5, 0.0,  0.3, 0.6, 0.0,  0.3, 0.7, 0.0,
      0.2, 0.5, 0.0,  0.2, 0.5, 0.0,  0.2, 0.6, 0.0,  0.2, 0.7, 0.0]"

text \<open>The similarities of the entries that are not skipped, in iteration order.\<close>

definition scores :: "real list \<Rightarrow> gestures \<Rightarrow> real list" where
  "scores norm_landmarks gs = List.map_filter (\<lambda>e. entry_score norm_landmarks (snd e)) gs"

text \<open>
  The default entry \<^verbatim>\<open>"fist_default"\<close> (its name without the leading emoji; the
  \<^verbatim>\<open>is_default\<close> flag is not read by the matcher), and an entry whose landmark array
  cannot be reshaped into rows of three.
\<close>

definition fist_default :: gesture where
  "fist_default =
     \<lparr>name = ''Fist'', landmarks = Some fist_landmarks, message = ''I NEED HELP'',
      created_at = 0\<rparr>"

definition broken_entry :: gesture where
  "broken_entry =
     \<lparr>name = ''Broken'', landmarks = Some [1, 2], message = ''BROKEN'', created_at = 0\<rparr>"

section \<open>Double-precision model of the numeric core\<close>

text \<open>
  The values of a Python float: a finite number, the two infinities and NaN. Rounding
  inside the finite range is idealised (the exact result is kept) and the sign of zero
  is not distinguished; what is modelled is the range. A result at or beyond
  \<open>2^1024 - 2^970\<close> rounds to an infinity, a result of magnitude at most \<open>2^-1075\<close>
  (half the smallest subnormal) rounds to zero, and numpy raises no exception for
  either, nor for an invalid operation, which yields NaN.
\<close>

datatype double = Fin real | PInf | NInf | NaN

definition overflow_threshold :: real where
  "overflow_threshold = 2 ^ 1024 - 2 ^ 970"

definition underflow_threshold :: real where
  "underflow_threshold = 1 / 2 ^ 1075"

definition rd :: "real \<Rightarrow> double" where
  "rd x = (if x \<ge> overflow_threshold then PInf
           else if x \<le> - overflow_threshold then NInf
           else if \<bar>x\<bar> \<le> underflow_threshold then Fin 0
           else Fin x)"

fun is_neg :: "double \<Rightarrow> bool" where
  "is_neg (Fin x) = (x < 0)"
| "is_neg NInf = True"
| "is_neg _ = False"

fun fneg :: "double \<Rightarrow> double" where
  "fneg (Fin x) = Fin (- x)"
| "fneg PInf = NInf"
| "fneg NInf = PInf"
| "fneg NaN = NaN"

fun fadd :: "double \<Rightarrow> double \<Rightarrow> double" where
  "fadd NaN _ = NaN"
| "fadd _ NaN = NaN"
| "fadd PInf NInf = NaN"
| "fadd NInf PInf = NaN"
| "fadd PInf _ = PInf"
| "fadd _ PInf = PInf"
| "fadd NInf _ = NInf"
| "fadd _ NInf = NInf"
| "fadd (Fin x) (Fin y) = rd (x + y)"

definition fsub :: "double \<Rightarrow> double \<Rightarrow> double" where
  "fsub a b = fadd a (fneg b)"

fun fmul :: "double \<Rightarrow> double \<Rightarrow> double" where
  "fmul NaN _ = NaN"
| "fmul _ NaN = NaN"
| "fmul (Fin x) (Fin y) = rd (x * y)"
| "fmul a b =
     (if a = Fin 0 \<or> b = Fin 0 then NaN
      else if is_neg a \<noteq> is_neg b then NInf else PInf)"

fun fdiv :: "double \<Rightarrow> double \<Rightarrow> double" where
  "fdiv NaN _ = NaN"
| "fdiv _ NaN = NaN"
| "fdiv (Fin x) (Fin y) =
     (if y = 0 then (if x = 0 then NaN else if x < 0 then NInf else PInf)
      else rd (x / y))"
| "fdiv (Fin x) _ = Fin 0"
| "fdiv a (Fin y) = (if is_neg a \<noteq> (y < 0) then NInf else PInf)"
| "fdiv _ _ = NaN"

fun fsqrt :: "double \<Rightarrow> double" where
  "fsqrt (Fin x) = (if x < 0 then NaN else rd (sqrt x))"
| "fsqrt PInf = PInf"
| "fsqrt _ = NaN"

text \<open>The comparisons \<^verbatim>\<open>a > b\<close> and \<^verbatim>\<open>a >= b\<close>: false whenever an operand is NaN.\<close>

fun fgt :: "double \<Rightarrow> double \<Rightarrow> bool" where
  "fgt NaN _ = False"
| "fgt _ NaN = False"
| "fgt (Fin x) (Fin y) = (x > y)"
| "fgt PInf b = (b \<noteq> PInf)"
| "fgt NInf _ = False"
| "fgt (Fin x) b = (b = NInf)"

fun fge :: "double \<Rightarrow> double \<Rightarrow> bool" where
  "fge NaN _ = False"
| "fge _ NaN = False"
| "fge (Fin x) (Fin y) = (x \<ge> y)"
| "fge PInf _ = True"
| "fge NInf b = (b = NInf)"
| "fge (Fin x) b = (b = NInf)"

subsection \<open>Normalisation and matching on doubles\<close>

text \<open>
  The functions of the first embedding again, operation for operation, on doubles:
  Python's \<^verbatim>\<open>-\<close>, \<^verbatim>\<open>/\<close>, \<^verbatim>\<open>>\<close> and \<^verbatim>\<open>>=\<close> are \<open>fsub\<close>, \<open>fdiv\<close>, \<open>fgt\<close> and \<open>fge\<close>.
\<close>

type_synonym point64 = "double \<times> double \<times> double"

definition sub3_64 :: "point64 \<Rightarrow> point64 \<Rightarrow> point64" where
  "sub3_64 p w =
     (case p of (x, y, z) \<Rightarrow> (case w of (a, b, c) \<Rightarrow> (fsub x a, fsub y b, fsub z c)))"

definition div3_64 :: "point64 \<Rightarrow> double \<Rightarrow> point64" where
  "div3_64 p s = (case p of (x, y, z) \<Rightarrow> (fdiv x s, fdiv y s, fdiv z s))"

text \<open>
  \<^verbatim>\<open>np.linalg.norm\<close> of one row: the square root of the sum of the squares, each
  square and each partial sum a double.
\<close>

definition norm3_64 :: "point64 \<Rightarrow> double" where
  "norm3_64 p = (case p of (x, y, z) \<Rightarrow> fsqrt (fadd (fadd (fmul x x) (fmul y y)) (fmul z z)))"

definition normalize_landmarks64 :: "double list \<Rightarrow> error + double list" where
  "normalize_landmarks64 lms =
     (case reshape3 lms of
        Inl e \<Rightarrow> Inl e
      | Inr rows \<Rightarrow>
          (case rows of
             [] \<Rightarrow> Inl IndexError
           | wrist # _ \<Rightarrow>
               (let centered = map (\<lambda>p. sub3_64 p wrist) rows in
                if length centered \<le> 9 then Inl IndexError
                else
                  (let scale = norm3_64 (centered ! 9);
                       centered' = (if fgt scale (Fin 0) then map (\<lambda>p. div3_64 p scale) centered
                                    else centered)
                   in Inr (flatten centered')))))"

definition array_sub64 :: "double list \<Rightarrow> double list \<Rightarrow> error + double list" where
  "array_sub64 a b =
     (if length a = length b then Inr (map2 fsub a b)
      else if length b = 1 then Inr (map (\<lambda>x. fsub x (hd b)) a)
      else if length a = 1 then Inr (map (\<lambda>y. fsub (hd a) y) b)
      else Inl ValueError)"

definition row_distances64 :: "double list \<Rightarrow> error + double list" where
  "row_distances64 diff =
     (case reshape3 diff of Inl e \<Rightarrow> Inl e | Inr rows \<Rightarrow> Inr (map norm3_64 rows))"

text \<open>
  \<^verbatim>\<open>np.partition\<close> orders NaN after every number. The \<open>k\<close> smallest values are taken
  from an insertion sort in that order; \<^verbatim>\<open>np.mean\<close> is the sum divided by the count.
\<close>

definition nan_last_le :: "double \<Rightarrow> double \<Rightarrow> bool" where
  "nan_last_le a b = (b = NaN \<or> fge b a)"

fun insert64 :: "double \<Rightarrow> double list \<Rightarrow> double list" where
  "insert64 x [] = [x]"
| "insert64 x (y # ys) = (if nan_last_le x y then x # y # ys else y # insert64 x ys)"

fun sort64 :: "double list \<Rightarrow> double list" where
  "sort64 [] = []"
| "sort64 (x # xs) = insert64 x (sort64 xs)"

fun sum64 :: "double list \<Rightarrow> double" where
  "sum64 [] = Fin 0"
| "sum64 (x # xs) = fadd x (sum64 xs)"

definition mean64 :: "double list \<Rightarrow> double" where
  "mean64 xs = fdiv (sum64 xs) (Fin (real (length xs)))"

definition avg_distance64 :: "double list \<Rightarrow> double" where
  "avg_distance64 distances = mean64 (take (topk distances) (sort64 distances))"

definition similarity_of64 :: "double list \<Rightarrow> error + double" where
  "similarity_of64 distances =
     (if distances = [] then Inl ValueError
      else Inr (fdiv (Fin 1) (fadd (Fin 1) (avg_distance64 distances))))"

definition entry_similarity64 :: "double list \<Rightarrow> double list \<Rightarrow> error + double" where
  "entry_similarity64 norm_landmarks stored =
     (case normalize_landmarks64 stored of
        Inl e \<Rightarrow> Inl e
      | Inr stored_norm \<Rightarrow>
          (case array_sub64 norm_landmarks stored_norm of
             Inl e \<Rightarrow> Inl e
           | Inr diff \<Rightarrow>
               (case row_distances64 diff of
                  Inl e \<Rightarrow> Inl e
                | Inr distances \<Rightarrow> similarity_of64 distances)))"

record gesture64 =
  name64 :: string
  landmarks64 :: "double list option"
  message64 :: string
  created_at64 :: int

record match_state64 =
  best_match64 :: "(string \<times> gesture64) option"
  best_score64 :: double
  best_gesture_id64 :: "string option"

definition match_init64 :: match_state64 where
  "match_init64 = \<lparr>best_match64 = None, best_score64 = Fin (- 1), best_gesture_id64 = None\<rparr>"

fun match_loop64 ::
  "double list \<Rightarrow> (string \<times> gesture64) list \<Rightarrow> match_state64 \<Rightarrow> match_state64" where
  "match_loop64 norm_landmarks [] st = st"
| "match_loop64 norm_landmarks ((gesture_id, g) # rest) st =
     (case landmarks64 g of
        None \<Rightarrow> match_loop64 norm_landmarks rest st
      | Some stored \<Rightarrow>
          if stored = [] then match_loop64 norm_landmarks rest st
          else
            (case entry_similarity64 norm_landmarks stored of
               Inl e \<Rightarrow> match_loop64 norm_landmarks rest st
             | Inr similarity \<Rightarrow>
                 if fgt similarity (best_score64 st)
                 then match_loop64 norm_landmarks rest
                        \<lparr>best_match64 = Some (gesture_id, g), best_score64 = similarity,
                         best_gesture_id64 = Some gesture_id\<rparr>
                 else match_loop64 norm_landmarks rest st))"

definition search64 :: "(string \<times> gesture64) list \<Rightarrow> double list \<Rightarrow> match_state64 option" where
  "search64 gs query =
     (if query = [] \<or> gs = [] then None
      else
        (case normalize_landmarks64 query of
           Inl e \<Rightarrow> None
         | Inr norm_landmarks \<Rightarrow> Some (match_loop64 norm_landmarks gs match_init64)))"

definition find_similar_gesture64 ::
  "(string \<times> gesture64) list \<Rightarrow> double list \<Rightarrow> double \<Rightarrow> (string \<times> gesture64) option" where
  "find_similar_gesture64 gs query threshold =
     (case search64 gs query of
        None \<Rightarrow> None
      | Some st \<Rightarrow> if fge (best_score64 st) threshold then best_match64 st else None)"

subsection \<open>Auxiliary definitions on doubles\<close>

text \<open>
  The rows \<open>normalize_landmarks64\<close> flattens, the finite doubles, and the expression
  \<^verbatim>\<open>1.0 / (1.0 + avg_distance)\<close> on its own.
\<close>

definition normalized_rows64 :: "point64 list \<Rightarrow> point64 list" where
  "normalized_rows64 rows =
     (let centered = map (\<lambda>p. sub3_64 p (rows ! 0)) rows; scale = norm3_64 (centered ! 9)
      in if fgt scale (Fin 0) then map (\<lambda>p. div3_64 p scale) centered else centered)"

definition finite64 :: "double \<Rightarrow> bool" where
  "finite64 x = (case x of Fin r \<Rightarrow> True | _ \<Rightarrow> False)"

definition similarity64 :: "double \<Rightarrow> double" where
  "similarity64 avg = fdiv (Fin 1) (fadd (Fin 1) avg)"

text \<open>
  The matching step in the words of the specification: the 21 per-joint Euclidean
  distances between two flat arrays of 21 points, and the mean of the \<open>k\<close> lowest
  values of a list, NaN counting as the largest.
\<close>

definition joint_distances64 :: "double list \<Rightarrow> double list \<Rightarrow> double list" where
  "joint_distances64 a b =
     map (\<lambda>i. norm3_64 (fsub (a ! (3 * i)) (b ! (3 * i)),
                          fsub (a ! (3 * i + 1)) (b ! (3 * i + 1)),
                          fsub (a ! (3 * i + 2)) (b ! (3 * i + 2)))) [0..<21]"

definition mean_lowest64 :: "nat \<Rightarrow> double list \<Rightarrow> double" where
  "mean_lowest64 k distances = mean64 (take k (sort64 distances))"

text \<open>A distance, a sum of distances or their mean: never negative, possibly infinite or NaN.\<close>

fun nonneg64 :: "double \<Rightarrow> bool" where
  "nonneg64 (Fin x) = (0 \<le> x)"
| "nonneg64 NInf = False"
| "nonneg64 _ = True"

text \<open>
  Example poses of 21 points. \<open>unit_pose\<close> has its reference joint at distance 1 from
  the wrist; \<open>short_pose\<close> is its first ten points. In \<open>tiny_pose\<close> the reference joint
  is at distance \<open>2^-600\<close>, whose square is below the smallest subnormal. In
  \<open>huge_pose\<close> the wrist is at \<open>-2^1023\<close> and the other joints at \<open>2^1023\<close>, so that
  centring overflows. In \<open>spread_pose\<close> the reference joint is at \<open>2^-500\<close> and eight
  joints are at \<open>2^600\<close>, so that scaling overflows. All coordinates are finite doubles.
\<close>

definition unit_pose :: "double list" where
  "unit_pose =
     [Fin 0, Fin 0, Fin 0,  Fin 1, Fin 0, Fin 0,  Fin 1, Fin 1, Fin 0,
      Fin 0, Fin 1, Fin 0,  Fin 0, Fin 0, Fin 1,  Fin 1, Fin 0, Fin 1,
      Fin 0, Fin 1, Fin 1,  Fin 1, Fin 1, Fin 1,  Fin 0, Fin 0, Fin 0,
      Fin 1, Fin 0, Fin 0,  Fin 0, Fin 0, Fin 0,  Fin 0, Fin 0, Fin 0,
      Fin 0, Fin 0, Fin 0,  Fin 0, Fin 0, Fin 0,  Fin 0, Fin 0, Fin 0,
      Fin 0, Fin 0, Fin 0,  Fin 0, Fin 0, Fin 0,  Fin 0, Fin 0, Fin 0,
      Fin 0, Fin 0, Fin 0,  Fin 0, Fin 0, Fin 0,  Fin 0, Fin 0, Fin 0]"

definition unit_gesture :: gesture64 where
  "unit_gesture =
     \<lparr>name64 = ''Fist'', landmarks64 = Some unit_pose, message64 = ''I NEED HELP'',
      created_at64 = 0\<rparr>"

definition short_pose :: "double list" where
  "short_pose =
     [Fin 0, Fin 0, Fin 0,  Fin 1, Fin 0, Fin 0,  Fin 1, Fin 1, Fin 0,
      Fin 0, Fin 1, Fin 0,  Fin 0, Fin 0, Fin 1,  Fin 1, Fin 0, Fin 1,
      Fin 0, Fin 1, Fin 1,  Fin 1, Fin 1, Fin 1,  Fin 0, Fin 0, Fin 0,
      Fin 1, Fin 0, Fin 0]"

definition tiny :: real where
  "tiny = 1 / 2 ^ 600"

definition tiny_pose :: "double list" where
  "tiny_pose =
     [Fin 0, Fin 0, Fin 0,  Fin 0, Fin 0, Fin 0,  Fin 0, Fin 0, Fin 0,
      Fin 0, Fin 0, Fin 0,  Fin 0, Fin 0, Fin 0,  Fin 0, Fin 0, Fin 0,
      Fin 0, Fin 0, Fin 0,  Fin 0, Fin 0, Fin 0,  Fin 0, Fin 0, Fin 0,
      Fin tiny, Fin 0, Fin 0,
      Fin 0, Fin 0, Fin 0,  Fin 0, Fin 0, Fin 0,  Fin 0, Fin 0, Fin 0,
      Fin 0, Fin 0, Fin 0,  Fin 0, Fin 0, Fin 0,  Fin 0, Fin 0, Fin 0,
      Fin 0, Fin 0, Fin 0,  Fin 0, Fin 0, Fin 0,  Fin 0, Fin 0, Fin 0,
      Fin 0, Fin 0, Fin 0,  Fin 0, Fin 0, Fin 0]"

definition huge :: real where
  "huge = 2 ^ 1023"

definition huge_pose :: "double list" where
  "huge_pose =
     [Fin (- huge), Fin 0, Fin 0,  Fin huge, Fin 0, Fin 0,  Fin huge, Fin 0, Fin 0,
      Fin huge, Fin 0, Fin 0,  Fin huge, Fin 0, Fin 0,  Fin huge, Fin 0, Fin 0,
      Fin huge, Fin 0, Fin 0,  Fin huge, Fin 0, Fin 0,  Fin huge, Fin 0, Fin 0,
      Fin huge, Fin 0, Fin 0,  Fin huge, Fin 0, Fin 0,  Fin huge, Fin 0, Fin 0,
      Fin huge, Fin 0, Fin 0,  Fin huge, Fin 0, Fin 0,  Fin huge, Fin 0, Fin 0,
      Fin huge, Fin 0, Fin 0,  Fin huge, Fin 0, Fin 0,  Fin huge, Fin 0, Fin 0,
      Fin huge, Fin 0, Fin 0,  Fin huge, Fin 0, Fin 0,  Fin huge, Fin 0, Fin 0]"

definition huge_pose_normalized :: "double list" where
  "huge_pose_normalized =
     [Fin 0, Fin 0, Fin 0,  NaN, Fin 0, Fin 0,  NaN, Fin 0, Fin 0,
      NaN, Fin 0, Fin 0,  NaN, Fin 0, Fin 0,  NaN, Fin 0, Fin 0,
      NaN, Fin 0, Fin 0,  NaN, Fin 0, Fin 0,  NaN, Fin 0, Fin 0,
      NaN, Fin 0, Fin 0,  NaN, Fin 0, Fin 0,  NaN, Fin 0, Fin 0,
      NaN, Fin 0, Fin 0,  NaN, Fin 0, Fin 0,  NaN, Fin 0, Fin 0,
      NaN, Fin 0, Fin 0,  NaN, Fin 0, Fin 0,  NaN, Fin 0, Fin 0,
      NaN, Fin 0, Fin 0,  NaN, Fin 0, Fin 0,  NaN, Fin 0, Fin 0]"

definition huge_fist :: gesture64 where
  "huge_fist =
     \<lparr>name64 = ''Fist'', landmarks64 = Some huge_pose, message64 = ''I NEED HELP'',
      created_at64 = 0\<rparr>"

definition big :: real where
  "big = 2 ^ 600"

definition small :: real where
  "small = 1 / 2 ^ 500"

definition spread_pose :: "double list" where
  "spread_pose =
     [Fin 0, Fin 0, Fin 0,  Fin big, Fin 0, Fin 0,  Fin big, Fin 0, Fin 0,
      Fin big, Fin 0, Fin 0,  Fin big, Fin 0, Fin 0,  Fin big, Fin 0, Fin 0,
      Fin big, Fin 0, Fin 0,  Fin big, Fin 0, Fin 0,  Fin big, Fin 0, Fin 0,
      Fin small, Fin 0, Fin 0,  Fin 0, Fin 0, Fin 0,  Fin 0, Fin 0, Fin 0,
      Fin 0, Fin 0, Fin 0,  Fin 0, Fin 0, Fin 0,  Fin 0, Fin 0, Fin 0,
      Fin 0, Fin 0, Fin 0,  Fin 0, Fin 0, Fin 0,  Fin 0, Fin 0, Fin 0,
      Fin 0, Fin 0, Fin 0,  Fin 0, Fin 0, Fin 0,  Fin 0, Fin 0, Fin 0]"

definition spread_pose_normalized :: "double list" where
  "spread_pose_normalized =
     [Fin 0, Fin 0, Fin 0,  PInf, Fin 0, Fin 0,  PInf, Fin 0, Fin 0,
      PInf, Fin 0, Fin 0,  PInf, Fin 0, Fin 0,  PInf, Fin 0, Fin 0,
      PInf, Fin 0, Fin 0,  PInf, Fin 0, Fin 0,  PInf, Fin 0, Fin 0,
      Fin 1, Fin 0, Fin 0,  Fin 0, Fin 0, Fin 0,  Fin 0, Fin 0, Fin 0,
      Fin 0, Fin 0, Fin 0,  Fin 0, Fin 0, Fin 0,  Fin 0, Fin 0, Fin 0,
      Fin 0, Fin 0, Fin 0,  Fin 0, Fin 0, Fin 0,  Fin 0, Fin 0, Fin 0,
      Fin 0, Fin 0, Fin 0,  Fin 0, Fin 0, Fin 0,  Fin 0, Fin 0, Fin 0]"

section \<open>Properties of the frame channel\<close>

declare discard_old.simps [simp del]

lemma discard_old_empty: "discard_old q = []"
proof (induction q)
  case Nil
  show ?case by (subst discard_old.simps) simp
next
  case (Cons frame rest)
  then show ?case by (subst discard_old.simps) (simp add: get_nowait_def)
qed

lemma publish_replaces: "publish frame q = Some [frame]"
  by (simp add: publish_def discard_old_empty put_def maxsize_def)

lemma publish_all_last: "frames \<noteq> [] \<Longrightarrow> publish_all frames q = Some [last frames]"
  by (induction frames arbitrary: q) (auto simp: publish_replaces)

text \<open>
  C4. With the queue operations taken one at a time: from any queue state, publishing a
  non-empty sequence of frames with no take in between never blocks and leaves at most
  one frame queued; the next \<open>get_frame\<close> returns the frame published last without
  blocking, and the \<open>get_frame\<close> after that returns Python's \<open>None\<close> (empty), again
  without blocking.
\<close>

theorem frame_channel_keeps_latest:
  assumes "frames \<noteq> []"
  shows "\<exists>q1 q2. publish_all frames q = Some q1 \<and> length q1 \<le> 1 \<and>
           get_frame q1 = Some (Some (last frames), q2) \<and>
           get_frame q2 = Some (None, q2)"
  using publish_all_last [OF assms, of q] by (simp add: get_frame_def get_def)

theorem frame_channel_keeps_latest_witness:
  "[10, 20, 30 :: nat] \<noteq> [] \<and>
   (\<exists>q1 q2. publish_all [10, 20, 30 :: nat] [7] = Some q1 \<and> length q1 \<le> 1 \<and>
      get_frame q1 = Some (Some 30, q2) \<and> get_frame q2 = Some (None, q2))"
  using frame_channel_keeps_latest [of "[10, 20, 30 :: nat]" "[7]"] by simp

section \<open>Properties of the cooldown gate\<close>

text \<open>
  C5. One call of \<open>handle_gesture_recognition\<close> speaks and updates the interface exactly
  when the identifier differs from the stored one or more than 5 seconds have passed
  since the stored time; when it does, it stores the identifier and the time, and
  otherwise it changes nothing. Three matches of one identifier \<open>A\<close>, the second and the
  third at most 5 seconds after the first, handled from the initial state, speak
  exactly once.
\<close>

theorem cooldown_gate:
  "(let a' = handle_gesture_recognition t g a in
      if current_gesture a \<noteq> Some (fst g) \<or> t - last_gesture_time a > 5
      then current_gesture a' = Some (fst g) \<and> last_gesture_time a' = t \<and>
           spoken a' = spoken a @ [message (snd g)] \<and>
           recognized_text a' = recognized_text a @ [message (snd g)]
      else a' = a) \<and>
   (fst ga = A \<and> fst gb = A \<and> fst gc = A \<and> tb - ta \<le> 5 \<and> tc - ta \<le> 5 \<longrightarrow>
      spoken (handle_all [(ta, ga), (tb, gb), (tc, gc)] app_init) = [message (snd ga)] \<and>
      current_gesture (handle_all [(ta, ga), (tb, gb), (tc, gc)] app_init) = Some A \<and>
      last_gesture_time (handle_all [(ta, ga), (tb, gb), (tc, gc)] app_init) = ta)"
  by (simp add: handle_gesture_recognition_def app_init_def Let_def)

theorem cooldown_gate_witness:
  "spoken (handle_all
      [(100, (''a'', \<lparr>name = ''A'', landmarks = None, message = ''HELP'', created_at = 0\<rparr>)),
       (102, (''a'', \<lparr>name = ''A'', landmarks = None, message = ''HELP'', created_at = 0\<rparr>)),
       (105, (''a'', \<lparr>name = ''A'', landmarks = None, message = ''HELP'', created_at = 0\<rparr>))]
      app_init) = [''HELP'']"
  using cooldown_gate [where
      t = 100 and a = app_init and A = "''a''" and ta = 100 and tb = 102 and tc = 105 and
      g = "(''a'', \<lparr>name = ''A'', landmarks = None, message = ''HELP'', created_at = 0\<rparr>)" and
      ga = "(''a'', \<lparr>name = ''A'', landmarks = None, message = ''HELP'', created_at = 0\<rparr>)" and
      gb = "(''a'', \<lparr>name = ''A'', landmarks = None, message = ''HELP'', created_at = 0\<rparr>)" and
      gc = "(''a'', \<lparr>name = ''A'', landmarks = None, message = ''HELP'', created_at = 0\<rparr>)"]
  by simp

section \<open>Properties of the gesture database\<close>

text \<open>
  C10. \<open>add_gesture\<close> with an empty landmark list returns \<open>False\<close> and leaves the
  database as it was: the gesture dictionary, the persisted document and the number of
  saves attempted are unchanged, whatever the file system would have done.
\<close>

theorem add_gesture_empty_rejected:
  "add_gesture fs now gesture_id nm [] msg db = (False, db) \<and>
   db_gestures (snd (add_gesture fs now gesture_id nm [] msg db)) = db_gestures db \<and>
   db_file (snd (add_gesture fs now gesture_id nm [] msg db)) = db_file db \<and>
   db_saves (snd (add_gesture fs now gesture_id nm [] msg db)) = db_saves db"
  by (simp add: add_gesture_def)

section \<open>Properties of the normalisation\<close>

lemma reshape3_flatten: "reshape3 (flatten rows) = Inr rows"
  by (induction rows rule: flatten.induct) simp_all

lemma flatten_reshape3: "reshape3 ls = Inr rows \<Longrightarrow> flatten rows = ls"
  by (induction ls arbitrary: rows rule: reshape3.induct) (auto split: sum.splits)

lemma length_flatten: "length (flatten rows) = 3 * length rows"
  by (induction rows rule: flatten.induct) simp_all

lemma reshape3_total:
  "length ls = 3 * n \<Longrightarrow> \<exists>rows. reshape3 ls = Inr rows \<and> length rows = n"
proof (induction n arbitrary: ls)
  case 0
  then show ?case by simp
next
  case (Suc m)
  then obtain x y z rest where ls: "ls = x # y # z # rest"
    by (cases ls rule: reshape3.cases) auto
  with Suc.prems have "length rest = 3 * m" by simp
  from Suc.IH[OF this] ls show ?case by auto
qed

lemma flatten_nth:
  "i < length rows \<Longrightarrow>
   flatten rows ! (3 * i) = fst (rows ! i) \<and>
   flatten rows ! (3 * i + 1) = fst (snd (rows ! i)) \<and>
   flatten rows ! (3 * i + 2) = snd (snd (rows ! i))"
proof (induction rows arbitrary: i rule: flatten.induct)
  case 1
  then show ?case by simp
next
  case (2 x y z rows)
  show ?case
  proof (cases i)
    case 0
    then show ?thesis by simp
  next
    case (Suc j)
    with 2 have "j < length rows" by simp
    from 2(1)[OF this] Suc show ?thesis by (simp add: numeral_3_eq_3)
  qed
qed

lemma reshape3_nth:
  assumes "reshape3 ls = Inr rows" "i < length rows"
  shows "rows ! i = (ls ! (3 * i), ls ! (3 * i + 1), ls ! (3 * i + 2))"
  using flatten_nth[OF assms(2)] flatten_reshape3[OF assms(1)] by (simp add: prod_eq_iff)

lemma norm3_nonneg: "0 \<le> norm3 p"
  by (simp add: norm3_def split: prod.splits)

lemma normalize_landmarks_rows:
  assumes "reshape3 ls = Inr rows" "9 < length rows"
  shows "normalize_landmarks ls = Inr (flatten (normalized_rows rows))"
proof -
  from assms(2) obtain wrist rest where rows: "rows = wrist # rest" by (cases rows) auto
  show ?thesis
    using assms by (simp add: normalize_landmarks_def normalized_rows_def rows Let_def)
qed

lemma normalize_landmarks_Inr:
  assumes "normalize_landmarks ls = Inr out"
  shows "\<exists>rows. reshape3 ls = Inr rows \<and> 9 < length rows \<and> out = flatten (normalized_rows rows)"
proof -
  from assms obtain rows where r: "reshape3 ls = Inr rows"
    by (auto simp: normalize_landmarks_def split: sum.splits)
  with assms have "9 < length rows"
    by (auto simp: normalize_landmarks_def Let_def split: list.splits if_splits)
  with r assms normalize_landmarks_rows[OF r this] show ?thesis by auto
qed

lemma length_normalized_rows: "length (normalized_rows rows) = length rows"
  by (simp add: normalized_rows_def Let_def)

lemma normalized_rows_nth:
  assumes "i < length rows" "9 < length rows"
  shows "normalized_rows rows ! i =
     (let scale = norm3 (sub3 (rows ! 9) (rows ! 0))
      in if scale > 0 then div3 (sub3 (rows ! i) (rows ! 0)) scale else sub3 (rows ! i) (rows ! 0))"
  using assms by (simp add: normalized_rows_def Let_def)

lemma lt3_cases: "c < (3::nat) \<Longrightarrow> c = 0 \<or> c = 1 \<or> c = 2"
  by arith

lemma normalize_landmarks_coords:
  assumes "length ls = 3 * n" "9 < n"
  shows "\<exists>out. normalize_landmarks ls = Inr out \<and> length out = 3 * n \<and>
           (\<forall>i<n. \<forall>c<3. out ! (3 * i + c) =
              (let scale = sqrt ((ls ! 27 - ls ! 0)\<^sup>2 + (ls ! 28 - ls ! 1)\<^sup>2 + (ls ! 29 - ls ! 2)\<^sup>2)
               in if scale > 0 then (ls ! (3 * i + c) - ls ! c) / scale
                  else ls ! (3 * i + c) - ls ! c))"
proof -
  from reshape3_total[OF assms(1)] obtain rows where r: "reshape3 ls = Inr rows" "length rows = n"
    by auto
  then have l: "9 < length rows" "0 < length rows" using assms(2) by auto
  let ?out = "flatten (normalized_rows rows)"
  let ?scale = "sqrt ((ls ! 27 - ls ! 0)\<^sup>2 + (ls ! 28 - ls ! 1)\<^sup>2 + (ls ! 29 - ls ! 2)\<^sup>2)"
  have 1: "normalize_landmarks ls = Inr ?out" by (rule normalize_landmarks_rows[OF r(1) l(1)])
  have 2: "length ?out = 3 * n" by (simp add: length_flatten length_normalized_rows r)
  have r0: "rows ! 0 = (ls ! 0, ls ! 1, ls ! 2)"
    using reshape3_nth[OF r(1) l(2)] by (simp add: numeral_2_eq_2)
  have r9: "rows ! 9 = (ls ! 27, ls ! 28, ls ! 29)" using reshape3_nth[OF r(1) l(1)] by simp
  have sc: "norm3 (sub3 (rows ! 9) (rows ! 0)) = ?scale" by (simp add: r0 r9 sub3_def norm3_def)
  have 3: "?out ! (3 * i + c) =
             (if ?scale > 0 then (ls ! (3 * i + c) - ls ! c) / ?scale else ls ! (3 * i + c) - ls ! c)"
    if i: "i < n" and c: "c < 3" for i c
  proof -
    have il: "i < length rows" "i < length (normalized_rows rows)"
      using i r by (simp_all add: length_normalized_rows)
    have ri: "rows ! i = (ls ! (3 * i), ls ! (3 * i + 1), ls ! (3 * i + 2))"
      by (rule reshape3_nth[OF r(1) il(1)])
    have ni: "normalized_rows rows ! i =
        (if ?scale > 0 then div3 (sub3 (rows ! i) (rows ! 0)) ?scale else sub3 (rows ! i) (rows ! 0))"
      using normalized_rows_nth[OF il(1) l(1)] by (simp add: sc Let_def)
    from lt3_cases[OF c] show ?thesis
      using flatten_nth[OF il(2)] by (auto simp: ni ri r0 sub3_def div3_def)
  qed
  show ?thesis using 1 2 3 by (auto simp: Let_def)
qed

lemma length_default_landmarks:
  "length fist_landmarks = 63" "length palm_landmarks = 63"
  by (simp_all add: fist_landmarks_def palm_landmarks_def)

section \<open>Properties of the matcher\<close>

subsection \<open>Similarity of one entry\<close>

lemma avg_distance_nonneg:
  assumes "\<forall>d\<in>set distances. 0 \<le> d"
  shows "0 \<le> avg_distance distances"
proof -
  have "set (take (topk distances) (sort distances)) \<subseteq> set distances"
    using set_take_subset[of "topk distances" "sort distances"] by simp
  with assms have "0 \<le> sum_list (take (topk distances) (sort distances))"
    by (intro sum_list_nonneg) auto
  then show ?thesis by (simp add: avg_distance_def Let_def)
qed

lemma row_distances_nonneg:
  "row_distances diff = Inr distances \<Longrightarrow> \<forall>d\<in>set distances. 0 \<le> d"
  by (auto simp: row_distances_def norm3_nonneg split: sum.splits)

lemma similarity_of_bounds:
  assumes "\<forall>d\<in>set distances. 0 \<le> d" "similarity_of distances = Inr v"
  shows "0 < v \<and> v \<le> 1"
proof -
  from assms(2) have v: "v = 1 / (1 + avg_distance distances)"
    by (auto simp: similarity_of_def split: if_splits)
  from avg_distance_nonneg[OF assms(1)] show ?thesis unfolding v by simp
qed

lemma entry_similarity_bounds:
  assumes "entry_similarity q stored = Inr v"
  shows "0 < v \<and> v \<le> 1"
proof -
  from assms obtain diff distances where
    "row_distances diff = Inr distances" "similarity_of distances = Inr v"
    by (auto simp: entry_similarity_def split: sum.splits)
  then show ?thesis using similarity_of_bounds row_distances_nonneg by blast
qed

lemma entry_score_bounds: "entry_score q g = Some v \<Longrightarrow> 0 < v \<and> v \<le> 1"
  by (auto simp: entry_score_def entry_similarity_bounds split: option.splits if_splits sum.splits)

lemma normalize_landmarks_21_length:
  assumes "length ls = 63"
  shows "\<exists>out. normalize_landmarks ls = Inr out \<and> length out = 63"
proof -
  from assms have "length ls = 3 * 21" by simp
  from normalize_landmarks_coords[OF this] show ?thesis by auto
qed

subsection \<open>The search loop\<close>

lemma match_loop_Cons:
  "match_loop q ((gesture_id, g) # rest) st =
     match_loop q rest
       (case entry_score q g of
          None \<Rightarrow> st
        | Some similarity \<Rightarrow>
            if similarity > best_score st
            then \<lparr>best_match = Some (gesture_id, g), best_score = similarity,
                  best_gesture_id = Some gesture_id\<rparr>
            else st)"
  by (simp add: entry_score_def split: option.splits sum.splits)

lemma match_loop_append:
  "match_loop q (xs @ ys) st = match_loop q ys (match_loop q xs st)"
  by (induction xs arbitrary: st) (auto simp del: match_loop.simps(2) simp: match_loop_Cons)

lemma match_loop_skip:
  "entry_score q g = None \<Longrightarrow>
   match_loop q (pre @ (gesture_id, g) # post) st = match_loop q (pre @ post) st"
  by (simp add: match_loop_append match_loop_Cons del: match_loop.simps(2))

lemma match_loop_outcome:
  "(match_loop q gs st = st \<and> (\<forall>e\<in>set gs. \<forall>v. entry_score q (snd e) = Some v \<longrightarrow> v \<le> best_score st))
   \<or> (\<exists>pre e post v. gs = pre @ e # post \<and> entry_score q (snd e) = Some v \<and>
         match_loop q gs st = \<lparr>best_match = Some e, best_score = v, best_gesture_id = Some (fst e)\<rparr> \<and>
         best_score st < v \<and>
         (\<forall>e'\<in>set pre. \<forall>v'. entry_score q (snd e') = Some v' \<longrightarrow> v' < v) \<and>
         (\<forall>e'\<in>set post. \<forall>v'. entry_score q (snd e') = Some v' \<longrightarrow> v' \<le> v))"
  (is "?A gs st \<or> ?B gs st")
proof (induction gs arbitrary: st)
  case Nil
  then show ?case by simp
next
  case (Cons a gs)
  obtain gid g where a: "a = (gid, g)" by (cases a) auto
  let ?st1 = "\<lparr>best_match = Some a, best_score = the (entry_score q g), best_gesture_id = Some gid\<rparr>"
  show ?case
  proof (cases "\<exists>v. entry_score q g = Some v \<and> v > best_score st")
    case False
    then have step: "match_loop q (a # gs) st = match_loop q gs st"
      unfolding a match_loop_Cons by (auto split: option.splits)
    from Cons.IH[of st] show ?thesis
    proof
      assume "?A gs st"
      with False step have "?A (a # gs) st" by (auto simp: a)
      then show ?thesis ..
    next
      assume "?B gs st"
      then obtain pre e post v where b: "gs = pre @ e # post" "entry_score q (snd e) = Some v"
        "match_loop q gs st = \<lparr>best_match = Some e, best_score = v, best_gesture_id = Some (fst e)\<rparr>"
        "best_score st < v"
        "\<forall>e'\<in>set pre. \<forall>v'. entry_score q (snd e') = Some v' \<longrightarrow> v' < v"
        "\<forall>e'\<in>set post. \<forall>v'. entry_score q (snd e') = Some v' \<longrightarrow> v' \<le> v"
        by blast
      have "a # gs = (a # pre) @ e # post" using b(1) by simp
      moreover have "\<forall>e'\<in>set (a # pre). \<forall>v'. entry_score q (snd e') = Some v' \<longrightarrow> v' < v"
        using b(5) b(4) False by (auto simp: a) 
      ultimately have "?B (a # gs) st" using b(2,3,4,6) step by metis
      then show ?thesis ..
    qed
  next
    case True
    then obtain va where va: "entry_score q g = Some va" "va > best_score st" by auto
    let ?s = "\<lparr>best_match = Some a, best_score = va, best_gesture_id = Some gid\<rparr>"
    have step: "match_loop q (a # gs) st = match_loop q gs ?s"
      unfolding a match_loop_Cons using va by simp
    from Cons.IH[of ?s] show ?thesis
    proof
      assume A: "?A gs ?s"
      have "a # gs = [] @ a # gs" by simp
      moreover have "match_loop q (a # gs) st = \<lparr>best_match = Some a, best_score = va, best_gesture_id = Some (fst a)\<rparr>"
        using A step by (simp add: a)
      moreover have "\<forall>e'\<in>set gs. \<forall>v'. entry_score q (snd e') = Some v' \<longrightarrow> v' \<le> va"
        using A by simp
      moreover have "entry_score q (snd a) = Some va" using va by (simp add: a)
      moreover have "\<forall>e'\<in>set ([]::(string \<times> gesture) list). \<forall>v'. entry_score q (snd e') = Some v' \<longrightarrow> v' < va" by simp
      ultimately have "?B (a # gs) st" using va(2) by blast
      then show ?thesis ..
    next
      assume "?B gs ?s"
      then obtain pre e post v where b: "gs = pre @ e # post" "entry_score q (snd e) = Some v"
        "match_loop q gs ?s = \<lparr>best_match = Some e, best_score = v, best_gesture_id = Some (fst e)\<rparr>"
        "best_score ?s < v"
        "\<forall>e'\<in>set pre. \<forall>v'. entry_score q (snd e') = Some v' \<longrightarrow> v' < v"
        "\<forall>e'\<in>set post. \<forall>v'. entry_score q (snd e') = Some v' \<longrightarrow> v' \<le> v"
        by blast
      have "a # gs = (a # pre) @ e # post" using b(1) by simp
      moreover have "\<forall>e'\<in>set (a # pre). \<forall>v'. entry_score q (snd e') = Some v' \<longrightarrow> v' < v"
        using b(5) b(4) va by (auto simp: a)
      moreover have "best_score st < v" using b(4) va(2) by simp
      moreover have "match_loop q (a # gs) st = \<lparr>best_match = Some e, best_score = v, best_gesture_id = Some (fst e)\<rparr>"
        using step b(3) by simp
      ultimately have "?B (a # gs) st" using b(2,6) by metis
      then show ?thesis ..
    qed
  qed
qed

lemma set_scores: "set (scores q gs) = {v. \<exists>e\<in>set gs. entry_score q (snd e) = Some v}"
  by (induction gs) (auto simp: scores_def split: option.splits)

lemma normalize_landmarks_nonempty: "normalize_landmarks [] = Inl IndexError"
  by (simp add: normalize_landmarks_def)

lemma search_found:
  assumes "normalize_landmarks query = Inr qn" "scores qn gs \<noteq> []"
  shows "\<exists>pre e post v. gs = pre @ e # post \<and> entry_score qn (snd e) = Some v \<and>
           search gs query =
             Some \<lparr>best_match = Some e, best_score = v, best_gesture_id = Some (fst e)\<rparr> \<and>
           (\<forall>e'\<in>set pre. \<forall>v'. entry_score qn (snd e') = Some v' \<longrightarrow> v' < v) \<and>
           (\<forall>e'\<in>set post. \<forall>v'. entry_score qn (snd e') = Some v' \<longrightarrow> v' \<le> v)"
proof -
  from assms(2) have "set (scores qn gs) \<noteq> {}" by simp
  then obtain e0 v0 where e0: "e0 \<in> set gs" "entry_score qn (snd e0) = Some v0"
    unfolding set_scores by auto
  then have gs: "gs \<noteq> []" by auto
  from assms(1) have q: "query \<noteq> []" by (auto simp: normalize_landmarks_nonempty)
  have s: "search gs query = Some (match_loop qn gs match_init)"
    using gs q assms(1) by (simp add: search_def)
  have "\<not> v0 \<le> best_score match_init"
    using entry_score_bounds[OF e0(2)] by (simp add: match_init_def)
  with e0 have "\<not> (\<forall>e\<in>set gs. \<forall>v. entry_score qn (snd e) = Some v \<longrightarrow> v \<le> best_score match_init)"
    by blast
  with match_loop_outcome[of qn gs match_init] obtain pre e post v where
    "gs = pre @ e # post" "entry_score qn (snd e) = Some v"
    "match_loop qn gs match_init =
       \<lparr>best_match = Some e, best_score = v, best_gesture_id = Some (fst e)\<rparr>"
    "\<forall>e'\<in>set pre. \<forall>v'. entry_score qn (snd e') = Some v' \<longrightarrow> v' < v"
    "\<forall>e'\<in>set post. \<forall>v'. entry_score qn (snd e') = Some v' \<longrightarrow> v' \<le> v"
    by blast
  with s show ?thesis by metis
qed

lemma search_nothing:
  assumes "scores qn gs = []" "normalize_landmarks query = Inr qn"
  shows "find_similar_gesture gs query threshold = None"
proof -
  from assms(1) have "set (scores qn gs) = {}" by simp
  then have "\<forall>e\<in>set gs. \<forall>v. entry_score qn (snd e) \<noteq> Some v" unfolding set_scores by auto
  then have n: "\<forall>e\<in>set gs. entry_score qn (snd e) = None" by (metis not_Some_eq)
  have "match_loop qn gs st = st" for st
    using match_loop_outcome[of qn gs st] n by auto
  then show ?thesis
    using assms(2) by (auto simp: find_similar_gesture_def search_def match_init_def)
qed

lemma Max_scores:
  assumes "gs = pre @ e # post" "entry_score qn (snd e) = Some v"
    "\<forall>e'\<in>set pre. \<forall>v'. entry_score qn (snd e') = Some v' \<longrightarrow> v' < v"
    "\<forall>e'\<in>set post. \<forall>v'. entry_score qn (snd e') = Some v' \<longrightarrow> v' \<le> v"
  shows "Max (set (scores qn gs)) = v"
proof (rule Max_eqI)
  show "finite (set (scores qn gs))" by simp
  show "v \<in> set (scores qn gs)" unfolding set_scores using assms(1,2) by auto
  fix y assume "y \<in> set (scores qn gs)"
  then obtain e' where "e' \<in> set gs" "entry_score qn (snd e') = Some y"
    unfolding set_scores by auto
  with assms show "y \<le> v" by (auto simp: less_imp_le)
qed

lemma find_skip:
  assumes "\<forall>qn. normalize_landmarks query = Inr qn \<longrightarrow> entry_score qn g = None"
  shows "find_similar_gesture (pre @ (gesture_id, g) # post) query threshold =
         find_similar_gesture (pre @ post) query threshold"
proof (cases "normalize_landmarks query")
  case (Inl err)
  then show ?thesis by (simp add: find_similar_gesture_def search_def)
next
  case (Inr qn)
  with assms have n: "entry_score qn g = None" by simp
  have q: "query \<noteq> []" using Inr by (auto simp: normalize_landmarks_nonempty)
  show ?thesis
  proof (cases "pre @ post = []")
    case True
    have "match_loop qn [(gesture_id, g)] match_init = match_init"
      using n by (simp add: match_loop_Cons del: match_loop.simps(2))
    then have l: "find_similar_gesture (pre @ (gesture_id, g) # post) query threshold = None"
      using Inr q True by (simp add: find_similar_gesture_def search_def match_init_def)
    have r: "find_similar_gesture (pre @ post) query threshold = None"
      using True by (simp add: find_similar_gesture_def search_def)
    show ?thesis unfolding l r ..
  next
    case False
    then have "search (pre @ (gesture_id, g) # post) query = search (pre @ post) query"
      using Inr q match_loop_skip[OF n, of pre gesture_id post match_init]
      by (auto simp: search_def)
    then show ?thesis by (simp add: find_similar_gesture_def)
  qed
qed

lemma avg_distance_zero:
  assumes "\<forall>d\<in>set distances. d = 0"
  shows "avg_distance distances = 0"
proof -
  let ?t = "take (topk distances) (sort distances)"
  have "set ?t \<subseteq> set distances"
    using set_take_subset[of "topk distances" "sort distances"] by simp
  with assms have z: "\<forall>d\<in>set ?t. d = 0" by auto
  then have "0 \<le> sum_list ?t" "sum_list ?t \<le> 0"
    by (auto intro!: sum_list_nonneg sum_list_nonpos)
  then show ?thesis by (simp add: avg_distance_def Let_def)
qed

lemma flatten_zero: "map (\<lambda>x. 0) (flatten rows) = flatten (map (\<lambda>p. (0, 0, 0)) rows)"
  by (induction rows rule: flatten.induct) simp_all

lemma entry_similarity_self:
  assumes "normalize_landmarks F = Inr n"
  shows "entry_similarity n F = Inr 1"
proof -
  from normalize_landmarks_Inr[OF assms] obtain rows where
    r: "9 < length rows" "n = flatten (normalized_rows rows)" by auto
  let ?R = "normalized_rows rows"
  have "array_sub n n = Inr (map (\<lambda>x. 0) n)"
    by (simp add: array_sub_def zip_same_conv_map)
  then have d: "array_sub n n = Inr (flatten (map (\<lambda>p. (0, 0, 0)) ?R))"
    by (simp add: r(2) flatten_zero)
  have rd: "row_distances (flatten (map (\<lambda>p. (0, 0, 0)) ?R)) = Inr (map (\<lambda>p. 0) ?R)"
    by (simp add: row_distances_def reshape3_flatten norm3_def)
  have "length ?R \<noteq> 0" using r(1) by (auto simp: length_normalized_rows)
  then have ne: "map (\<lambda>p. 0::real) ?R \<noteq> []" by simp
  have "avg_distance (map (\<lambda>p. 0) ?R) = 0" by (rule avg_distance_zero) simp
  with ne have "similarity_of (map (\<lambda>p. 0) ?R) = Inr 1" by (simp add: similarity_of_def)
  with assms d rd show ?thesis by (simp add: entry_similarity_def)
qed

lemma entry_score_identical:
  assumes "landmarks g = Some F" "normalize_landmarks F = Inr n"
  shows "entry_score n g = Some 1"
proof -
  from assms(2) have "F \<noteq> []" by (auto simp: normalize_landmarks_nonempty)
  then show ?thesis
    using assms(1) entry_similarity_self[OF assms(2)] by (simp add: entry_score_def)
qed

lemma search_identical:
  assumes "landmarks g = Some F" "normalize_landmarks F = Inr n"
  shows "search [(gesture_id, g)] F =
           Some \<lparr>best_match = Some (gesture_id, g), best_score = 1,
                  best_gesture_id = Some gesture_id\<rparr>"
proof -
  from assms(2) have F: "F \<noteq> []" by (auto simp: normalize_landmarks_nonempty)
  have "match_loop n [(gesture_id, g)] match_init =
      \<lparr>best_match = Some (gesture_id, g), best_score = 1, best_gesture_id = Some gesture_id\<rparr>"
    using entry_score_identical[OF assms]
    by (simp add: match_loop_Cons match_init_def del: match_loop.simps(2))
  then show ?thesis using F assms(2) by (simp add: search_def)
qed

lemma fist_default_normalizes: "\<exists>n. normalize_landmarks fist_landmarks = Inr n"
  using normalize_landmarks_21_length[OF length_default_landmarks(1)] by blast

lemma landmarks_fist_default: "landmarks fist_default = Some fist_landmarks"
  by (simp add: fist_default_def)

lemma find_fist_default:
  "threshold \<le> 1 \<Longrightarrow>
   find_similar_gesture [(gesture_id, fist_default)] fist_landmarks threshold =
     Some (gesture_id, fist_default)"
proof -
  assume t: "threshold \<le> 1"
  obtain n where n: "normalize_landmarks fist_landmarks = Inr n"
    using fist_default_normalizes by blast
  from search_identical[OF landmarks_fist_default n, of gesture_id] t show ?thesis
    by (simp add: find_similar_gesture_def)
qed

text \<open>
  C6. When the query normalises and at least one entry is scored, the best score is the
  maximum of the scores. If it equals the threshold, \<open>find_similar_gesture\<close> returns an
  entry of the library whose score is the threshold; if it is strictly below the
  threshold, the result is \<open>None\<close>.
\<close>

theorem threshold_inclusive:
  assumes "normalize_landmarks query = Inr qn" "scores qn gs \<noteq> []"
  shows "(Max (set (scores qn gs)) = threshold \<longrightarrow>
            (\<exists>e\<in>set gs. find_similar_gesture gs query threshold = Some e \<and>
                         entry_score qn (snd e) = Some threshold)) \<and>
         (Max (set (scores qn gs)) < threshold \<longrightarrow>
            find_similar_gesture gs query threshold = None)"
proof -
  from search_found[OF assms] obtain pre e post v where
    f: "gs = pre @ e # post" "entry_score qn (snd e) = Some v"
       "search gs query =
          Some \<lparr>best_match = Some e, best_score = v, best_gesture_id = Some (fst e)\<rparr>"
       "\<forall>e'\<in>set pre. \<forall>v'. entry_score qn (snd e') = Some v' \<longrightarrow> v' < v"
       "\<forall>e'\<in>set post. \<forall>v'. entry_score qn (snd e') = Some v' \<longrightarrow> v' \<le> v"
    by blast
  have m: "Max (set (scores qn gs)) = v" by (rule Max_scores[OF f(1,2,4,5)])
  have e: "e \<in> set gs" using f(1) by simp
  show ?thesis unfolding m using f(2,3) e by (auto simp: find_similar_gesture_def)
qed

theorem threshold_inclusive_witness:
  "find_similar_gesture [(''fist'', fist_default)] fist_landmarks 1 =
     Some (''fist'', fist_default) \<and>
   find_similar_gesture [(''fist'', fist_default)] fist_landmarks (101 / 100) = None"
proof -
  obtain n where n: "normalize_landmarks fist_landmarks = Inr n"
    using fist_default_normalizes by blast
  have sc: "scores n [(''fist'', fist_default)] = [1]"
    using entry_score_identical[OF landmarks_fist_default n] by (simp add: scores_def)
  then have ne: "scores n [(''fist'', fist_default)] \<noteq> []" by simp
  have "find_similar_gesture [(''fist'', fist_default)] fist_landmarks 1 =
          Some (''fist'', fist_default)"
    using threshold_inclusive [OF n ne, of 1] by (simp add: sc)
  moreover have "find_similar_gesture [(''fist'', fist_default)] fist_landmarks (101 / 100) = None"
    using threshold_inclusive [OF n ne, of "101 / 100"] by (simp add: sc)
  ultimately show ?thesis by simp
qed

text \<open>
  C7. Whenever \<open>find_similar_gesture\<close> returns an entry, the library splits at that
  entry so that every scored entry before it has a strictly lower score and every
  scored entry after it has a score that is lower or equal: among the entries with the
  highest score the first in iteration order is returned. The result is a function of
  the library (in its iteration order), the query and the threshold.
\<close>

theorem ties_keep_first_seen:
  assumes "find_similar_gesture gs query threshold = Some e"
  shows "\<exists>qn pre post v. normalize_landmarks query = Inr qn \<and> gs = pre @ e # post \<and>
           entry_score qn (snd e) = Some v \<and> threshold \<le> v \<and>
           (\<forall>e'\<in>set pre. \<forall>v'. entry_score qn (snd e') = Some v' \<longrightarrow> v' < v) \<and>
           (\<forall>e'\<in>set post. \<forall>v'. entry_score qn (snd e') = Some v' \<longrightarrow> v' \<le> v)"
proof -
  from assms obtain qn where qn: "normalize_landmarks query = Inr qn"
    by (auto simp: find_similar_gesture_def search_def split: option.splits if_splits sum.splits)
  have "scores qn gs \<noteq> []" using search_nothing[OF _ qn, of gs threshold] assms by auto
  from search_found[OF qn this] obtain pre e1 post v where
    f: "gs = pre @ e1 # post" "entry_score qn (snd e1) = Some v"
       "search gs query =
          Some \<lparr>best_match = Some e1, best_score = v, best_gesture_id = Some (fst e1)\<rparr>"
       "\<forall>e'\<in>set pre. \<forall>v'. entry_score qn (snd e') = Some v' \<longrightarrow> v' < v"
       "\<forall>e'\<in>set post. \<forall>v'. entry_score qn (snd e') = Some v' \<longrightarrow> v' \<le> v"
    by blast
  from assms f(3) have "e1 = e" "threshold \<le> v"
    by (auto simp: find_similar_gesture_def split: if_splits)
  with f qn show ?thesis by blast
qed

theorem ties_keep_first_seen_witness:
  "find_similar_gesture [(''a'', fist_default), (''b'', fist_default)] fist_landmarks (7 / 10) =
     Some (''a'', fist_default) \<and>
   (\<exists>qn pre post v. normalize_landmarks fist_landmarks = Inr qn \<and>
      [(''a'', fist_default), (''b'', fist_default)] = pre @ (''a'', fist_default) # post \<and>
      entry_score qn (snd (''a'', fist_default)) = Some v \<and> 7 / 10 \<le> v \<and>
      (\<forall>e'\<in>set pre. \<forall>v'. entry_score qn (snd e') = Some v' \<longrightarrow> v' < v) \<and>
      (\<forall>e'\<in>set post. \<forall>v'. entry_score qn (snd e') = Some v' \<longrightarrow> v' \<le> v))"
proof -
  obtain n where n: "normalize_landmarks fist_landmarks = Inr n"
    using fist_default_normalizes by blast
  have q: "fist_landmarks \<noteq> []" using length_default_landmarks(1) by auto
  have sc: "entry_score n fist_default = Some 1"
    by (rule entry_score_identical[OF landmarks_fist_default n])
  have "match_loop n [(''a'', fist_default), (''b'', fist_default)] match_init =
      \<lparr>best_match = Some (''a'', fist_default), best_score = 1, best_gesture_id = Some ''a''\<rparr>"
    by (simp add: match_loop_Cons sc match_init_def del: match_loop.simps(2))
  then have h: "find_similar_gesture [(''a'', fist_default), (''b'', fist_default)]
      fist_landmarks (7 / 10) = Some (''a'', fist_default)"
    using n q by (simp add: find_similar_gesture_def search_def)
  from ties_keep_first_seen [OF h] h show ?thesis by simp
qed

text \<open>
  C8. An entry whose landmarks are missing or empty, or whose comparison with the
  normalised query raises (in the normalisation of the stored landmarks, the
  subtraction, the reshape of the difference or the selection of the lowest
  distances), does not change the result: the search returns what it returns on the
  library without that entry.
\<close>

theorem failing_entry_is_skipped:
  assumes "landmarks g = None \<or> landmarks g = Some [] \<or>
           (\<exists>stored. landmarks g = Some stored \<and>
              (\<forall>qn. normalize_landmarks query = Inr qn \<longrightarrow>
                 (\<exists>err. entry_similarity qn stored = Inl err)))"
  shows "find_similar_gesture (pre @ (gesture_id, g) # post) query threshold =
         find_similar_gesture (pre @ post) query threshold"
proof -
  from assms have "\<forall>qn. normalize_landmarks query = Inr qn \<longrightarrow> entry_score qn g = None"
    by (auto simp: entry_score_def)
  then show ?thesis by (rule find_skip)
qed

theorem failing_entry_is_skipped_witness:
  "find_similar_gesture [(''broken'', broken_entry), (''fist'', fist_default)]
     fist_landmarks (7 / 10) =
   find_similar_gesture [(''fist'', fist_default)] fist_landmarks (7 / 10) \<and>
   find_similar_gesture [(''broken'', broken_entry), (''fist'', fist_default)]
     fist_landmarks (7 / 10) = Some (''fist'', fist_default)"
proof -
  have "normalize_landmarks [1, 2] = Inl ValueError" by (simp add: normalize_landmarks_def)
  then have "\<forall>qn. normalize_landmarks fist_landmarks = Inr qn \<longrightarrow>
      (\<exists>err. entry_similarity qn [1, 2] = Inl err)"
    by (simp add: entry_similarity_def)
  then have h: "landmarks broken_entry = None \<or> landmarks broken_entry = Some [] \<or>
      (\<exists>stored. landmarks broken_entry = Some stored \<and>
         (\<forall>qn. normalize_landmarks fist_landmarks = Inr qn \<longrightarrow>
            (\<exists>err. entry_similarity qn stored = Inl err)))"
    by (simp add: broken_entry_def)
  from failing_entry_is_skipped [OF h, of "[]" "''broken''" "[(''fist'', fist_default)]" "7 / 10"]
  show ?thesis using find_fist_default[of "7 / 10" "''fist''"] by simp
qed

section \<open>Properties of the double-precision model\<close>

subsection \<open>Rounding\<close>

lemma overflow_threshold_pos: "1 < overflow_threshold"
  by (simp add: overflow_threshold_def)

lemma underflow_threshold_small: "0 < underflow_threshold" "underflow_threshold < 1"
  by (simp_all add: underflow_threshold_def)

lemma rd_0 [simp]: "rd 0 = Fin 0"
  using overflow_threshold_pos underflow_threshold_small by (simp add: rd_def)

lemma rd_1 [simp]: "rd 1 = Fin 1"
  using overflow_threshold_pos underflow_threshold_small by (simp add: rd_def)

lemma fsub_self: "fsub (Fin r) (Fin r) = Fin 0"
  by (simp add: fsub_def)

lemma fdiv_zero_pos: "fgt s (Fin 0) \<Longrightarrow> fdiv (Fin 0) s = Fin 0"
  by (cases s) auto

lemma overflow_threshold_bound: "overflow_threshold < 2 ^ 1075"
  by (simp add: overflow_threshold_def)

subsection \<open>Normalisation\<close>

lemma normalize_landmarks64_rows:
  assumes "reshape3 ls = Inr rows" "9 < length rows"
  shows "normalize_landmarks64 ls = Inr (flatten (normalized_rows64 rows))"
proof -
  from assms(2) obtain wrist rest where rows: "rows = wrist # rest" by (cases rows) auto
  show ?thesis
    using assms by (simp add: normalize_landmarks64_def normalized_rows64_def rows Let_def)
qed

lemma normalize_landmarks64_Inr:
  assumes "normalize_landmarks64 ls = Inr out"
  shows "\<exists>rows. reshape3 ls = Inr rows \<and> 9 < length rows \<and>
           out = flatten (normalized_rows64 rows)"
proof -
  from assms obtain rows where r: "reshape3 ls = Inr rows"
    by (auto simp: normalize_landmarks64_def split: sum.splits)
  with assms have "9 < length rows"
    by (auto simp: normalize_landmarks64_def Let_def split: list.splits if_splits)
  with r assms normalize_landmarks64_rows[OF r this] show ?thesis by auto
qed

lemma length_normalized_rows64: "length (normalized_rows64 rows) = length rows"
  by (simp add: normalized_rows64_def Let_def)

lemma normalized_rows64_nth:
  assumes "i < length rows" "9 < length rows"
  shows "normalized_rows64 rows ! i =
     (let scale = norm3_64 (sub3_64 (rows ! 9) (rows ! 0))
      in if fgt scale (Fin 0) then div3_64 (sub3_64 (rows ! i) (rows ! 0)) scale
         else sub3_64 (rows ! i) (rows ! 0))"
  using assms by (simp add: normalized_rows64_def Let_def)

lemma normalize_landmarks64_coords:
  assumes "length ls = 3 * n" "9 < n"
  shows "\<exists>out. normalize_landmarks64 ls = Inr out \<and> length out = 3 * n \<and>
           (\<forall>i<n. \<forall>c<3. out ! (3 * i + c) =
              (let a = fsub (ls ! 27) (ls ! 0); b = fsub (ls ! 28) (ls ! 1);
                   d = fsub (ls ! 29) (ls ! 2);
                   scale = fsqrt (fadd (fadd (fmul a a) (fmul b b)) (fmul d d))
               in if fgt scale (Fin 0) then fdiv (fsub (ls ! (3 * i + c)) (ls ! c)) scale
                  else fsub (ls ! (3 * i + c)) (ls ! c)))"
proof -
  from reshape3_total[OF assms(1)] obtain rows where r: "reshape3 ls = Inr rows" "length rows = n"
    by auto
  then have l: "9 < length rows" "0 < length rows" using assms(2) by auto
  let ?out = "flatten (normalized_rows64 rows)"
  let ?a = "fsub (ls ! 27) (ls ! 0)"
  let ?b = "fsub (ls ! 28) (ls ! 1)"
  let ?d = "fsub (ls ! 29) (ls ! 2)"
  let ?scale = "fsqrt (fadd (fadd (fmul ?a ?a) (fmul ?b ?b)) (fmul ?d ?d))"
  have 1: "normalize_landmarks64 ls = Inr ?out" by (rule normalize_landmarks64_rows[OF r(1) l(1)])
  have 2: "length ?out = 3 * n" by (simp add: length_flatten length_normalized_rows64 r)
  have r0: "rows ! 0 = (ls ! 0, ls ! 1, ls ! 2)"
    using reshape3_nth[OF r(1) l(2)] by (simp add: numeral_2_eq_2)
  have r9: "rows ! 9 = (ls ! 27, ls ! 28, ls ! 29)" using reshape3_nth[OF r(1) l(1)] by simp
  have sc: "norm3_64 (sub3_64 (rows ! 9) (rows ! 0)) = ?scale"
    by (simp add: r0 r9 sub3_64_def norm3_64_def)
  have 3: "?out ! (3 * i + c) =
             (if fgt ?scale (Fin 0) then fdiv (fsub (ls ! (3 * i + c)) (ls ! c)) ?scale
              else fsub (ls ! (3 * i + c)) (ls ! c))"
    if i: "i < n" and c: "c < 3" for i c
  proof -
    have il: "i < length rows" "i < length (normalized_rows64 rows)"
      using i r by (simp_all add: length_normalized_rows64)
    have ri: "rows ! i = (ls ! (3 * i), ls ! (3 * i + 1), ls ! (3 * i + 2))"
      by (rule reshape3_nth[OF r(1) il(1)])
    have ni: "normalized_rows64 rows ! i =
        (if fgt ?scale (Fin 0) then div3_64 (sub3_64 (rows ! i) (rows ! 0)) ?scale
         else sub3_64 (rows ! i) (rows ! 0))"
      using normalized_rows64_nth[OF il(1) l(1)] by (simp add: sc Let_def)
    from lt3_cases[OF c] show ?thesis
      using flatten_nth[OF il(2)] by (auto simp: ni ri r0 sub3_64_def div3_64_def)
  qed
  show ?thesis using 1 2 3 by (auto simp: Let_def)
qed

lemma normalize_landmarks64_21_length:
  assumes "length ls = 63"
  shows "\<exists>out. normalize_landmarks64 ls = Inr out \<and> length out = 63"
proof -
  from assms have "length ls = 3 * 21" by simp
  from normalize_landmarks64_coords[OF this] show ?thesis by auto
qed

lemma normalize_landmarks64_nonempty: "normalize_landmarks64 [] = Inl IndexError"
  by (simp add: normalize_landmarks64_def)

lemma rd_tiny: "rd tiny = Fin tiny"
  by (simp add: rd_def tiny_def overflow_threshold_def underflow_threshold_def)

lemma rd_tiny_sq: "rd (tiny * tiny) = Fin 0"
  by (simp add: rd_def tiny_def overflow_threshold_def underflow_threshold_def)

lemma length_tiny_pose: "length tiny_pose = 63"
  by (simp add: tiny_pose_def)

lemma normalize_tiny_pose: "normalize_landmarks64 tiny_pose = Inr tiny_pose"
  by (simp add: tiny_pose_def normalize_landmarks64_def sub3_64_def norm3_64_def fsub_def
      rd_tiny rd_tiny_sq Let_def)

lemma normalize_unit_pose: "normalize_landmarks64 unit_pose = Inr unit_pose"
  by (simp add: unit_pose_def normalize_landmarks64_def sub3_64_def div3_64_def norm3_64_def
      fsub_def Let_def)

text \<open>
  C2, as amended. For a list of 21 points \<open>normalize_landmarks64\<close> succeeds and
  returns 63 coordinates: coordinate \<open>c\<close> of point \<open>i\<close> is the input coordinate minus
  coordinate \<open>c\<close> of point 0, divided by the norm of the centred point 9 as it is
  computed in doubles (the square root of the double sum of the double squares) when
  that computed value is greater than zero, and left undivided otherwise. When the
  coordinates of point 0 are finite, point 0 of the result is \<open>(0, 0, 0)\<close>.
\<close>

theorem normalize_landmarks64_21:
  assumes "length ls = 63"
  shows "\<exists>out. normalize_landmarks64 ls = Inr out \<and> length out = 63 \<and>
           (\<forall>i<21. \<forall>c<3. out ! (3 * i + c) =
              (let a = fsub (ls ! 27) (ls ! 0); b = fsub (ls ! 28) (ls ! 1);
                   d = fsub (ls ! 29) (ls ! 2);
                   scale = fsqrt (fadd (fadd (fmul a a) (fmul b b)) (fmul d d))
               in if fgt scale (Fin 0) then fdiv (fsub (ls ! (3 * i + c)) (ls ! c)) scale
                  else fsub (ls ! (3 * i + c)) (ls ! c))) \<and>
           (finite64 (ls ! 0) \<and> finite64 (ls ! 1) \<and> finite64 (ls ! 2) \<longrightarrow>
              out ! 0 = Fin 0 \<and> out ! 1 = Fin 0 \<and> out ! 2 = Fin 0)"
proof -
  from assms have "length ls = 3 * 21" by simp
  from normalize_landmarks64_coords[OF this] obtain out where
    o: "normalize_landmarks64 ls = Inr out" "length out = 63"
       "\<And>i c. i < 21 \<Longrightarrow> c < 3 \<Longrightarrow> out ! (3 * i + c) =
              (let a = fsub (ls ! 27) (ls ! 0); b = fsub (ls ! 28) (ls ! 1);
                   d = fsub (ls ! 29) (ls ! 2);
                   scale = fsqrt (fadd (fadd (fmul a a) (fmul b b)) (fmul d d))
               in if fgt scale (Fin 0) then fdiv (fsub (ls ! (3 * i + c)) (ls ! c)) scale
                  else fsub (ls ! (3 * i + c)) (ls ! c))"
    by auto
  have z: "out ! c = Fin 0" if "finite64 (ls ! c)" "c < 3" for c
  proof -
    from that(1) obtain r where r: "ls ! c = Fin r" by (cases "ls ! c") (auto simp: finite64_def)
    from o(3)[of 0 c] that(2) show ?thesis
      by (auto simp: Let_def r fsub_self fdiv_zero_pos)
  qed
  have "finite64 (ls ! 0) \<and> finite64 (ls ! 1) \<and> finite64 (ls ! 2) \<longrightarrow>
          out ! 0 = Fin 0 \<and> out ! 1 = Fin 0 \<and> out ! 2 = Fin 0"
    using z[of 0] z[of 1] z[of 2] by simp
  with o show ?thesis by blast
qed

theorem normalize_landmarks64_21_witness:
  "length tiny_pose = 63 \<and> finite64 (tiny_pose ! 0) \<and>
   (\<exists>out. normalize_landmarks64 tiny_pose = Inr out \<and> length out = 63 \<and>
      out ! 0 = Fin 0 \<and> out ! 1 = Fin 0 \<and> out ! 2 = Fin 0)"
proof -
  have f: "finite64 (tiny_pose ! 0)" "finite64 (tiny_pose ! 1)" "finite64 (tiny_pose ! 2)"
    by (simp_all add: tiny_pose_def finite64_def)
  from normalize_landmarks64_21 [OF length_tiny_pose] f show ?thesis
    using length_tiny_pose by blast
qed

text \<open>
  C2, counterexample to the claim as stated. In \<open>tiny_pose\<close> the centred point 9 is
  \<open>(2^-600, 0, 0)\<close>: its Euclidean norm \<open>2^-600\<close> is greater than zero, and division
  by it would give coordinate 27 the value 1. The square underflows to zero, the
  computed norm is zero, and the result is the centred input, unscaled.
\<close>

theorem norm_underflow_counterexample:
  "normalize_landmarks64 tiny_pose = Inr tiny_pose \<and>
   tiny_pose ! 27 = Fin tiny \<and> tiny_pose ! 0 = Fin 0 \<and>
   0 < sqrt ((tiny - 0)\<^sup>2 + (0 - 0)\<^sup>2 + (0 - 0)\<^sup>2) \<and>
   tiny_pose ! 27 \<noteq> Fin ((tiny - 0) / sqrt ((tiny - 0)\<^sup>2 + (0 - 0)\<^sup>2 + (0 - 0)\<^sup>2))"
proof -
  have t: "0 < tiny" "tiny \<noteq> 1" by (simp_all add: tiny_def)
  have n: "tiny_pose ! 27 = Fin tiny" "tiny_pose ! 0 = Fin 0" by (simp_all add: tiny_pose_def)
  from t show ?thesis by (simp add: normalize_tiny_pose n)
qed

subsection \<open>Similarity of one entry\<close>

lemma topk_numeral: "length distances = 21 \<Longrightarrow> topk distances = 16"
  by (simp add: topk_def)

lemma topk_pos: "0 < topk distances"
  by (simp add: topk_def)

lemma set_insert64: "set (insert64 x xs) = insert x (set xs)"
  by (induction xs) auto

lemma set_sort64: "set (sort64 xs) = set xs"
  by (induction xs) (simp_all add: set_insert64)

lemma length_insert64: "length (insert64 x xs) = Suc (length xs)"
  by (induction xs) auto

lemma length_sort64: "length (sort64 xs) = length xs"
  by (induction xs) (simp_all add: length_insert64)

lemma sum64_zero: "\<forall>x\<in>set xs. x = Fin 0 \<Longrightarrow> sum64 xs = Fin 0"
  by (induction xs) auto

lemma avg_distance64_zero:
  assumes "distances \<noteq> []" "\<forall>d\<in>set distances. d = Fin 0"
  shows "avg_distance64 distances = Fin 0"
proof -
  let ?t = "take (topk distances) (sort64 distances)"
  have "set ?t \<subseteq> set distances"
    using set_take_subset[of "topk distances" "sort64 distances"] by (simp add: set_sort64)
  with assms(2) have z: "\<forall>d\<in>set ?t. d = Fin 0" by auto
  have "length ?t = min (topk distances) (length distances)" by (simp add: length_sort64)
  with assms(1) topk_pos[of distances] have "length ?t \<noteq> 0" by auto
  then have "real (length ?t) \<noteq> 0" by simp
  then have "fdiv (Fin 0) (Fin (real (length ?t))) = Fin 0" by simp
  then show ?thesis by (simp add: avg_distance64_def mean64_def sum64_zero[OF z])
qed

lemma flatten_const: "map (\<lambda>x. c) (flatten rows) = flatten (map (\<lambda>p. (c, c, c)) rows)"
  by (induction rows rule: flatten.induct) simp_all

lemma norm3_64_zero: "norm3_64 (Fin 0, Fin 0, Fin 0) = Fin 0"
  by (simp add: norm3_64_def)

lemma entry_similarity64_self:
  assumes "normalize_landmarks64 F = Inr n" "list_all finite64 n"
  shows "entry_similarity64 n F = Inr (Fin 1)"
proof -
  from normalize_landmarks64_Inr[OF assms(1)] obtain rows where
    r: "9 < length rows" "n = flatten (normalized_rows64 rows)" by auto
  let ?R = "normalized_rows64 rows"
  have "fsub x x = Fin 0" if "x \<in> set n" for x
  proof -
    from that assms(2) have "finite64 x" by (simp add: list_all_iff)
    then obtain v where "x = Fin v" by (cases x) (auto simp: finite64_def)
    then show ?thesis by (simp add: fsub_self)
  qed
  then have "map2 fsub n n = map (\<lambda>x. Fin 0) n"
    by (simp add: zip_same_conv_map)
  then have "array_sub64 n n = Inr (map (\<lambda>x. Fin 0) n)"
    by (simp add: array_sub64_def)
  then have d: "array_sub64 n n = Inr (flatten (map (\<lambda>p. (Fin 0, Fin 0, Fin 0)) ?R))"
    by (simp add: r(2) flatten_const)
  have rd: "row_distances64 (flatten (map (\<lambda>p. (Fin 0, Fin 0, Fin 0)) ?R)) =
      Inr (map (\<lambda>p. Fin 0) ?R)"
    by (simp add: row_distances64_def reshape3_flatten norm3_64_zero)
  have "length ?R \<noteq> 0" using r(1) by (auto simp: length_normalized_rows64)
  then have ne: "map (\<lambda>p. Fin 0) ?R \<noteq> []" by simp
  have "avg_distance64 (map (\<lambda>p. Fin 0) ?R) = Fin 0"
    by (rule avg_distance64_zero[OF ne]) simp
  with ne have "similarity_of64 (map (\<lambda>p. Fin 0) ?R) = Inr (Fin 1)"
    by (simp add: similarity_of64_def)
  with assms(1) d rd show ?thesis by (simp add: entry_similarity64_def)
qed

lemma rd_nonneg: "0 \<le> x \<Longrightarrow> nonneg64 (rd x)"
  by (simp add: rd_def)

lemma fsqrt_nonneg: "nonneg64 (fsqrt x)"
  by (cases x) (simp_all add: rd_nonneg)

lemma norm3_64_nonneg: "nonneg64 (norm3_64 p)"
  by (simp add: norm3_64_def fsqrt_nonneg split: prod.splits)

lemma fadd_nonneg: "nonneg64 a \<Longrightarrow> nonneg64 b \<Longrightarrow> nonneg64 (fadd a b)"
  by (cases a; cases b) (simp_all add: rd_nonneg)

lemma sum64_nonneg: "\<forall>x\<in>set xs. nonneg64 x \<Longrightarrow> nonneg64 (sum64 xs)"
  by (induction xs) (simp_all add: fadd_nonneg)

lemma fdiv_nonneg: "nonneg64 a \<Longrightarrow> 0 \<le> k \<Longrightarrow> nonneg64 (fdiv a (Fin k))"
  by (cases a) (auto simp: rd_nonneg)

lemma mean_lowest64_nonneg:
  assumes "\<forall>x\<in>set ds. nonneg64 x"
  shows "nonneg64 (mean_lowest64 k ds)"
proof -
  have "set (take k (sort64 ds)) \<subseteq> set ds"
    using set_take_subset[of k "sort64 ds"] by (simp add: set_sort64)
  with assms have "\<forall>x\<in>set (take k (sort64 ds)). nonneg64 x" by auto
  then show ?thesis by (simp add: mean_lowest64_def mean64_def sum64_nonneg fdiv_nonneg)
qed

lemma similarity64_Fin:
  assumes "0 \<le> a"
  shows "similarity64 (Fin a) =
           Fin (if overflow_threshold \<le> 1 + a then 0 else 1 / (1 + a))"
proof (cases "overflow_threshold \<le> 1 + a")
  case True
  then have "rd (1 + a) = PInf" by (simp add: rd_def)
  with True show ?thesis by (simp add: similarity64_def)
next
  case False
  have u: "underflow_threshold < 1" by (rule underflow_threshold_small)
  from assms False u have 1: "rd (1 + a) = Fin (1 + a)"
    using overflow_threshold_pos by (simp add: rd_def)
  have p: "0 < 1 + a" using assms by simp
  have "1 + a < 2 ^ 1075" using False overflow_threshold_bound by simp
  then have "1 / 2 ^ 1075 < 1 / (1 + a)" using p by (simp add: frac_less2)
  then have lo: "\<not> \<bar>1 / (1 + a)\<bar> \<le> underflow_threshold"
    using p by (simp add: underflow_threshold_def)
  have le1: "1 / (1 + a) \<le> 1" and ge0: "0 < 1 / (1 + a)" using assms by simp_all
  have hi: "\<not> overflow_threshold \<le> 1 / (1 + a)" "\<not> 1 / (1 + a) \<le> - overflow_threshold"
    using overflow_threshold_pos le1 ge0 by linarith+
  have "rd (1 / (1 + a)) = Fin (1 / (1 + a))"
    unfolding rd_def using lo hi by simp
  with 1 False p show ?thesis by (simp add: similarity64_def)
qed

lemma similarity64_PInf: "similarity64 PInf = Fin 0"
  by (simp add: similarity64_def)

lemma similarity64_NaN: "similarity64 NaN = NaN"
  by (simp add: similarity64_def)

lemma similarity64_range:
  assumes "nonneg64 d" "d \<noteq> NaN"
  shows "fge (similarity64 d) (Fin 0) \<and> fge (Fin 1) (similarity64 d)"
proof (cases d)
  case (Fin a)
  with assms have "0 \<le> a" by simp
  from similarity64_Fin[OF this] \<open>0 \<le> a\<close> show ?thesis by (simp add: Fin)
next
  case PInf
  then show ?thesis by (simp add: similarity64_PInf)
next
  case NInf
  with assms show ?thesis by simp
next
  case NaN
  with assms show ?thesis by simp
qed

lemma similarity64_antimono:
  assumes "nonneg64 d" "nonneg64 d'" "fge d' d"
  shows "fge (similarity64 d) (similarity64 d')"
proof (cases d)
  case d: (Fin a)
  with assms have a: "0 \<le> a" by simp
  show ?thesis
  proof (cases d')
    case (Fin a')
    with assms d have "a \<le> a'" by simp
    with a have a': "0 \<le> a'" by simp
    have "1 / (1 + a') \<le> 1 / (1 + a)" using a \<open>a \<le> a'\<close> by (simp add: frac_le)
    moreover have "0 \<le> 1 / (1 + a)" using a by simp
    ultimately show ?thesis
      using \<open>a \<le> a'\<close> by (simp add: d Fin similarity64_Fin[OF a] similarity64_Fin[OF a'])
  next
    case PInf
    then show ?thesis using a by (simp add: d similarity64_Fin[OF a] similarity64_PInf)
  next
    case NInf
    with assms show ?thesis by simp
  next
    case NaN
    with assms d show ?thesis by simp
  qed
next
  case PInf
  with assms have "d' = PInf" by (cases d') simp_all
  with PInf show ?thesis by (simp add: similarity64_PInf)
next
  case NInf
  with assms show ?thesis by simp
next
  case NaN
  with assms show ?thesis by (cases d') simp_all
qed

lemma row_distances64_21:
  assumes "length a = 63" "length b = 63"
  shows "\<exists>diff. array_sub64 a b = Inr diff \<and> row_distances64 diff = Inr (joint_distances64 a b)"
proof -
  let ?d = "map2 fsub a b"
  have d: "array_sub64 a b = Inr ?d" using assms by (simp add: array_sub64_def)
  have "length ?d = 3 * 21" using assms by simp
  from reshape3_total[OF this] obtain rows where
    r: "reshape3 ?d = Inr rows" "length rows = 21" by auto
  have "map norm3_64 rows = joint_distances64 a b"
  proof (rule nth_equalityI)
    show "length (map norm3_64 rows) = length (joint_distances64 a b)"
      by (simp add: r(2) joint_distances64_def)
  next
    fix i assume "i < length (map norm3_64 rows)"
    then have i: "i < 21" "i < length rows" by (simp_all add: r(2))
    have ri: "rows ! i = (?d ! (3 * i), ?d ! (3 * i + 1), ?d ! (3 * i + 2))"
      by (rule reshape3_nth[OF r(1) i(2)])
    have "3 * i < 63" "3 * i + 1 < 63" "3 * i + 2 < 63" using i(1) by simp_all
    then have "?d ! (3 * i) = fsub (a ! (3 * i)) (b ! (3 * i))"
      "?d ! (3 * i + 1) = fsub (a ! (3 * i + 1)) (b ! (3 * i + 1))"
      "?d ! (3 * i + 2) = fsub (a ! (3 * i + 2)) (b ! (3 * i + 2))"
      using assms by simp_all
    with ri i show "map norm3_64 rows ! i = joint_distances64 a b ! i"
      by (simp add: joint_distances64_def)
  qed
  with r(1) have "row_distances64 ?d = Inr (joint_distances64 a b)"
    by (simp add: row_distances64_def)
  with d show ?thesis by blast
qed

lemma joint_distances64_nonneg: "\<forall>d\<in>set (joint_distances64 a b). nonneg64 d"
  by (auto simp: joint_distances64_def norm3_64_nonneg)

lemma entry_similarity64_21_aux:
  assumes "length qn = 63" "normalize_landmarks64 stored = Inr sn" "length sn = 63"
  shows "entry_similarity64 qn stored =
           Inr (similarity64 (mean_lowest64 16 (joint_distances64 qn sn))) \<and>
         nonneg64 (mean_lowest64 16 (joint_distances64 qn sn))"
proof -
  let ?ds = "joint_distances64 qn sn"
  from row_distances64_21[OF assms(1,3)] obtain diff where
    d: "array_sub64 qn sn = Inr diff" "row_distances64 diff = Inr ?ds" by blast
  have l: "length ?ds = 21" by (simp add: joint_distances64_def)
  then have ne: "?ds \<noteq> []" by auto
  have a: "avg_distance64 ?ds = mean_lowest64 16 ?ds"
    by (simp add: avg_distance64_def mean_lowest64_def topk_numeral[OF l])
  have "similarity_of64 ?ds = Inr (similarity64 (mean_lowest64 16 ?ds))"
    using ne a by (simp add: similarity_of64_def similarity64_def)
  with assms(2) d have "entry_similarity64 qn stored =
      Inr (similarity64 (mean_lowest64 16 ?ds))"
    by (simp add: entry_similarity64_def)
  then show ?thesis using mean_lowest64_nonneg[OF joint_distances64_nonneg] by simp
qed

text \<open>
  C1, as amended. For a query and a stored array of 21 points each, both normalisations
  succeed and the entry's similarity is \<^verbatim>\<open>1.0 / (1.0 + d)\<close> in doubles, where \<open>d\<close> is
  the mean of the 16 lowest of the 21 per-joint distances between the two normalised
  arrays (16 being the \<open>k\<close> the code computes for 21 distances, NaN counting as the
  largest distance). The similarity is NaN when \<open>d\<close> is NaN, exactly 0 when \<open>d\<close> is
  infinite, and otherwise lies in \<open>[0, 1]\<close>; of two stored arrays the one with the
  larger or equal \<open>d\<close> gets the smaller or equal similarity.
\<close>

theorem entry_similarity64_21:
  assumes "length query = 63" "length stored = 63" "length stored' = 63"
  shows "\<exists>qn sn sn'. normalize_landmarks64 query = Inr qn \<and>
           normalize_landmarks64 stored = Inr sn \<and> normalize_landmarks64 stored' = Inr sn' \<and>
           (let d = mean_lowest64 16 (joint_distances64 qn sn);
                d' = mean_lowest64 16 (joint_distances64 qn sn');
                s = fdiv (Fin 1) (fadd (Fin 1) d);
                s' = fdiv (Fin 1) (fadd (Fin 1) d')
            in length (joint_distances64 qn sn) = 21 \<and> topk (joint_distances64 qn sn) = 16 \<and>
               entry_similarity64 qn stored = Inr s \<and>
               entry_similarity64 qn stored' = Inr s' \<and>
               (d = NaN \<longrightarrow> s = NaN) \<and> (d = PInf \<longrightarrow> s = Fin 0) \<and>
               (d \<noteq> NaN \<longrightarrow> fge s (Fin 0) \<and> fge (Fin 1) s) \<and>
               (fge d' d \<longrightarrow> fge s s'))"
proof -
  from normalize_landmarks64_21_length[OF assms(1)] obtain qn where
    q: "normalize_landmarks64 query = Inr qn" "length qn = 63" by blast
  from normalize_landmarks64_21_length[OF assms(2)] obtain sn where
    s: "normalize_landmarks64 stored = Inr sn" "length sn = 63" by blast
  from normalize_landmarks64_21_length[OF assms(3)] obtain sn' where
    s': "normalize_landmarks64 stored' = Inr sn'" "length sn' = 63" by blast
  let ?d = "mean_lowest64 16 (joint_distances64 qn sn)"
  let ?d' = "mean_lowest64 16 (joint_distances64 qn sn')"
  have l: "length (joint_distances64 qn sn) = 21" by (simp add: joint_distances64_def)
  have 1: "entry_similarity64 qn stored = Inr (similarity64 ?d)" "nonneg64 ?d"
    using entry_similarity64_21_aux[OF q(2) s] by simp_all
  have 2: "entry_similarity64 qn stored' = Inr (similarity64 ?d')" "nonneg64 ?d'"
    using entry_similarity64_21_aux[OF q(2) s'] by simp_all
  have 3: "?d = NaN \<longrightarrow> similarity64 ?d = NaN" "?d = PInf \<longrightarrow> similarity64 ?d = Fin 0"
    by (simp_all add: similarity64_NaN similarity64_PInf)
  have 4: "?d \<noteq> NaN \<longrightarrow> fge (similarity64 ?d) (Fin 0) \<and> fge (Fin 1) (similarity64 ?d)"
    using similarity64_range[OF 1(2)] by simp
  have 5: "fge ?d' ?d \<longrightarrow> fge (similarity64 ?d) (similarity64 ?d')"
    using similarity64_antimono[OF 1(2) 2(2)] by simp
  show ?thesis
    using q(1) s(1) s'(1) l topk_numeral[OF l] 1(1) 2(1) 3 4 5
    unfolding Let_def similarity64_def by blast
qed

theorem entry_similarity64_21_witness:
  "length unit_pose = 63 \<and> length spread_pose = 63 \<and>
   (\<exists>qn sn. normalize_landmarks64 unit_pose = Inr qn \<and>
      normalize_landmarks64 spread_pose = Inr sn \<and>
      topk (joint_distances64 qn sn) = 16 \<and>
      entry_similarity64 qn spread_pose =
        Inr (fdiv (Fin 1) (fadd (Fin 1) (mean_lowest64 16 (joint_distances64 qn sn)))))"
proof -
  have u: "length unit_pose = 63" by (simp add: unit_pose_def)
  have p: "length spread_pose = 63" by (simp add: spread_pose_def)
  from entry_similarity64_21 [OF u p p] show ?thesis
    using u p unfolding Let_def by blast
qed

lemma small_pos: "0 < small" "small \<noteq> 0" "\<bar>small\<bar> = small"
  by (simp_all add: small_def)

lemma rd_big: "rd big = Fin big"
  by (simp add: rd_def big_def overflow_threshold_def underflow_threshold_def)

lemma rd_small: "rd small = Fin small"
  by (simp add: rd_def small_def overflow_threshold_def underflow_threshold_def)

lemma rd_small_sq: "rd (small * small) = Fin (small * small)"
  by (simp add: rd_def small_def overflow_threshold_def underflow_threshold_def)

lemma rd_big_small: "rd (big / small) = PInf"
  by (simp add: rd_def big_def small_def overflow_threshold_def)

lemma normalize_spread_pose: "normalize_landmarks64 spread_pose = Inr spread_pose_normalized"
  by (simp add: spread_pose_def spread_pose_normalized_def normalize_landmarks64_def sub3_64_def
      div3_64_def norm3_64_def fsub_def rd_big rd_small rd_small_sq rd_big_small small_pos Let_def)

lemma normalize_short_pose: "normalize_landmarks64 short_pose = Inr short_pose"
  by (simp add: short_pose_def normalize_landmarks64_def sub3_64_def div3_64_def norm3_64_def
      fsub_def Let_def)

lemma similarity_short_pose: "entry_similarity64 unit_pose short_pose = Inl ValueError"
  by (simp add: entry_similarity64_def normalize_short_pose array_sub64_def)
    (simp add: unit_pose_def short_pose_def)

lemma similarity_spread_pose: "entry_similarity64 unit_pose spread_pose = Inr (Fin 0)"
proof -
  have d: "array_sub64 unit_pose spread_pose_normalized =
      Inr [Fin 0, Fin 0, Fin 0,  NInf, Fin 0, Fin 0,  NInf, Fin 1, Fin 0,
           NInf, Fin 1, Fin 0,  NInf, Fin 0, Fin 1,  NInf, Fin 0, Fin 1,
           NInf, Fin 1, Fin 1,  NInf, Fin 1, Fin 1,  NInf, Fin 0, Fin 0,
           Fin 0, Fin 0, Fin 0,  Fin 0, Fin 0, Fin 0,  Fin 0, Fin 0, Fin 0,
           Fin 0, Fin 0, Fin 0,  Fin 0, Fin 0, Fin 0,  Fin 0, Fin 0, Fin 0,
           Fin 0, Fin 0, Fin 0,  Fin 0, Fin 0, Fin 0,  Fin 0, Fin 0, Fin 0,
           Fin 0, Fin 0, Fin 0,  Fin 0, Fin 0, Fin 0,  Fin 0, Fin 0, Fin 0]"
    by (simp add: array_sub64_def unit_pose_def spread_pose_normalized_def fsub_def)
  have r: "row_distances64
          [Fin 0, Fin 0, Fin 0,  NInf, Fin 0, Fin 0,  NInf, Fin 1, Fin 0,
           NInf, Fin 1, Fin 0,  NInf, Fin 0, Fin 1,  NInf, Fin 0, Fin 1,
           NInf, Fin 1, Fin 1,  NInf, Fin 1, Fin 1,  NInf, Fin 0, Fin 0,
           Fin 0, Fin 0, Fin 0,  Fin 0, Fin 0, Fin 0,  Fin 0, Fin 0, Fin 0,
           Fin 0, Fin 0, Fin 0,  Fin 0, Fin 0, Fin 0,  Fin 0, Fin 0, Fin 0,
           Fin 0, Fin 0, Fin 0,  Fin 0, Fin 0, Fin 0,  Fin 0, Fin 0, Fin 0,
           Fin 0, Fin 0, Fin 0,  Fin 0, Fin 0, Fin 0,  Fin 0, Fin 0, Fin 0] =
      Inr [Fin 0, PInf, PInf, PInf, PInf, PInf, PInf, PInf, PInf, Fin 0, Fin 0,
           Fin 0, Fin 0, Fin 0, Fin 0, Fin 0, Fin 0, Fin 0, Fin 0, Fin 0, Fin 0]"
    by (simp add: row_distances64_def norm3_64_def)
  have s: "similarity_of64 [Fin 0, PInf, PInf, PInf, PInf, PInf, PInf, PInf, PInf, Fin 0, Fin 0,
           Fin 0, Fin 0, Fin 0, Fin 0, Fin 0, Fin 0, Fin 0, Fin 0, Fin 0, Fin 0] = Inr (Fin 0)"
    by (simp add: similarity_of64_def avg_distance64_def mean64_def topk_numeral nan_last_le_def)
  show ?thesis by (simp add: entry_similarity64_def normalize_spread_pose d r s)
qed

text \<open>
  C1, counterexample to the claim as stated. Against the normalised 21-point query
  \<open>unit_pose\<close>, the entry \<open>short_pose\<close>, whose landmark array is non-empty but has ten
  points, gets no similarity: the subtraction raises. The 21-point entry
  \<open>spread_pose\<close>, all of whose coordinates are finite, gets the similarity 0, which is
  outside \<open>(0, 1]\<close>: eight of its normalised joints overflow to infinity, and so does
  the mean of the 16 lowest distances.
\<close>

theorem similarity_counterexample:
  "normalize_landmarks64 unit_pose = Inr unit_pose \<and> length unit_pose = 63 \<and>
   short_pose \<noteq> [] \<and> list_all finite64 short_pose \<and>
   entry_similarity64 unit_pose short_pose = Inl ValueError \<and>
   length spread_pose = 63 \<and> list_all finite64 spread_pose \<and>
   entry_similarity64 unit_pose spread_pose = Inr (Fin 0)"
proof -
  have "length unit_pose = 63" by (simp add: unit_pose_def)
  moreover have "short_pose \<noteq> []" "list_all finite64 short_pose"
    by (simp_all add: short_pose_def finite64_def)
  moreover have "length spread_pose = 63" "list_all finite64 spread_pose"
    by (simp_all add: spread_pose_def finite64_def)
  ultimately show ?thesis
    by (simp add: normalize_unit_pose similarity_short_pose similarity_spread_pose)
qed

subsection \<open>The identical pose\<close>

text \<open>
  C3, as amended. When the library is the single entry \<open>gesture_id\<close> with landmark
  array \<open>F\<close>, the normalisation of \<open>F\<close> succeeds with finite values only and the
  threshold is at most 1, the search with query \<open>F\<close> ends with that entry as best match
  with score exactly 1, and \<open>find_similar_gesture64\<close> returns the entry with its
  identifier.
\<close>

theorem identical_pose_matches64:
  assumes "landmarks64 g = Some F" "normalize_landmarks64 F = Inr n" "list_all finite64 n"
    "fge (Fin 1) threshold"
  shows "find_similar_gesture64 [(gesture_id, g)] F threshold = Some (gesture_id, g) \<and>
         search64 [(gesture_id, g)] F =
           Some \<lparr>best_match64 = Some (gesture_id, g), best_score64 = Fin 1,
                  best_gesture_id64 = Some gesture_id\<rparr>"
proof -
  from assms(2) have F: "F \<noteq> []" by (auto simp: normalize_landmarks64_nonempty)
  have "match_loop64 n [(gesture_id, g)] match_init64 =
      \<lparr>best_match64 = Some (gesture_id, g), best_score64 = Fin 1,
       best_gesture_id64 = Some gesture_id\<rparr>"
    using assms(1) F entry_similarity64_self[OF assms(2,3)] by (simp add: match_init64_def)
  then have s: "search64 [(gesture_id, g)] F =
           Some \<lparr>best_match64 = Some (gesture_id, g), best_score64 = Fin 1,
                  best_gesture_id64 = Some gesture_id\<rparr>"
    using F assms(2) by (simp add: search64_def)
  then show ?thesis using assms(4) by (simp add: find_similar_gesture64_def)
qed

theorem identical_pose_matches64_witness:
  "length unit_pose = 63 \<and>
   find_similar_gesture64 [(''fist'', unit_gesture)] unit_pose (Fin (7 / 10)) =
     Some (''fist'', unit_gesture)"
proof -
  have l: "landmarks64 unit_gesture = Some unit_pose" by (simp add: unit_gesture_def)
  have f: "list_all finite64 unit_pose" by (simp add: unit_pose_def finite64_def)
  have t: "fge (Fin 1) (Fin (7 / 10))" by simp
  from identical_pose_matches64 [OF l normalize_unit_pose f t, of "''fist''"] show ?thesis
    by (simp add: unit_pose_def)
qed

lemma rd_huge_sum: "rd (huge + huge) = PInf" "rd (2 * huge) = PInf"
  by (simp_all add: rd_def huge_def overflow_threshold_def)

lemma normalize_huge_pose: "normalize_landmarks64 huge_pose = Inr huge_pose_normalized"
  by (simp add: huge_pose_def huge_pose_normalized_def normalize_landmarks64_def sub3_64_def
      div3_64_def norm3_64_def fsub_def rd_huge_sum Let_def)

lemma similarity_huge_pose: "entry_similarity64 huge_pose_normalized huge_pose = Inr NaN"
proof -
  have d: "array_sub64 huge_pose_normalized huge_pose_normalized = Inr huge_pose_normalized"
    by (simp add: array_sub64_def huge_pose_normalized_def fsub_def)
  have r: "row_distances64 huge_pose_normalized =
      Inr [Fin 0, NaN, NaN, NaN, NaN, NaN, NaN, NaN, NaN, NaN, NaN,
           NaN, NaN, NaN, NaN, NaN, NaN, NaN, NaN, NaN, NaN]"
    by (simp add: row_distances64_def huge_pose_normalized_def norm3_64_def)
  have s: "similarity_of64 [Fin 0, NaN, NaN, NaN, NaN, NaN, NaN, NaN, NaN, NaN, NaN,
           NaN, NaN, NaN, NaN, NaN, NaN, NaN, NaN, NaN, NaN] = Inr NaN"
    by (simp add: similarity_of64_def avg_distance64_def mean64_def topk_numeral nan_last_le_def)
  show ?thesis by (simp add: entry_similarity64_def normalize_huge_pose d r s)
qed

text \<open>
  C3, counterexample to the claim as stated. \<open>huge_pose\<close> is a non-empty array of 21
  points with finite coordinates, and its normalisation raises nothing: centring
  overflows to infinity and the scaling divides infinity by infinity. With the library
  holding that one pose and the query equal to it, every similarity is NaN, no entry is
  selected and the result is \<open>None\<close>.
\<close>

theorem overflow_counterexample:
  "normalize_landmarks64 huge_pose = Inr huge_pose_normalized \<and>
   list_all finite64 huge_pose \<and>
   length huge_pose = 63 \<and>
   find_similar_gesture64 [(''fist'', huge_fist)] huge_pose (Fin (7 / 10)) = None"
proof -
  have f: "list_all finite64 huge_pose" by (simp add: huge_pose_def finite64_def)
  have l: "length huge_pose = 63" by (simp add: huge_pose_def)
  then have ne: "huge_pose \<noteq> []" by auto
  have "match_loop64 huge_pose_normalized [(''fist'', huge_fist)] match_init64 = match_init64"
    using ne by (simp add: huge_fist_def similarity_huge_pose match_init64_def)
  then have "search64 [(''fist'', huge_fist)] huge_pose = Some match_init64"
    using ne by (simp add: search64_def normalize_huge_pose)
  then have "find_similar_gesture64 [(''fist'', huge_fist)] huge_pose (Fin (7 / 10)) = None"
    by (simp add: find_similar_gesture64_def match_init64_def)
  with f l normalize_huge_pose show ?thesis by simp
qed

end
